theory Spec2Isabelle
  imports Complex_Main
begin

section \<open>Calendar values\<close>

text \<open>
  Python's \<^verbatim>\<open>datetime.date\<close> and \<^verbatim>\<open>datetime.datetime\<close> (naive, as
  \<^verbatim>\<open>datetime.now()\<close> returns them) are values with integer fields. Their order is
  the order of the field tuples, as in \<^verbatim>\<open>datetime._cmp\<close>.
\<close>

datatype date = Date (date_year: int) (date_month: int) (date_day: int)

datatype datetime =
  DateTime (dt_date: date) (dt_hour: int) (dt_minute: int) (dt_second: int) (dt_microsecond: int)

definition date_less :: "date \<Rightarrow> date \<Rightarrow> bool" where
  "date_less a b =
     (date_year a < date_year b \<or>
      (date_year a = date_year b \<and>
        (date_month a < date_month b \<or>
          (date_month a = date_month b \<and> date_day a < date_day b))))"

definition time_less :: "datetime \<Rightarrow> datetime \<Rightarrow> bool" where
  "time_less a b =
     (dt_hour a < dt_hour b \<or>
      (dt_hour a = dt_hour b \<and>
        (dt_minute a < dt_minute b \<or>
          (dt_minute a = dt_minute b \<and>
            (dt_second a < dt_second b \<or>
              (dt_second a = dt_second b \<and> dt_microsecond a < dt_microsecond b))))))"

definition dt_less :: "datetime \<Rightarrow> datetime \<Rightarrow> bool" where
  "dt_less a b =
     (date_less (dt_date a) (dt_date b) \<or> (dt_date a = dt_date b \<and> time_less a b))"

definition dt_le :: "datetime \<Rightarrow> datetime \<Rightarrow> bool" where
  "dt_le a b = (dt_less a b \<or> a = b)"

text \<open>\<^verbatim>\<open>now.replace(hour=h, minute=mi, second=s, microsecond=us)\<close>\<close>

definition replace_time :: "datetime \<Rightarrow> int \<Rightarrow> int \<Rightarrow> int \<Rightarrow> int \<Rightarrow> datetime" where
  "replace_time t h mi s us = DateTime (dt_date t) h mi s us"

text \<open>
  The proleptic Gregorian ordinal of a date (\<^verbatim>\<open>date.toordinal()\<close>, from
  \<^verbatim>\<open>_ymd2ord\<close> of the standard library): day 1 is 0001-01-01, a Monday. The
  difference of two dates in days is the difference of their ordinals, and
  \<^verbatim>\<open>weekday()\<close> is \<^verbatim>\<open>(toordinal() + 6) % 7\<close> with 0 for Monday.
\<close>

definition is_leap :: "int \<Rightarrow> bool" where
  "is_leap y = (y mod 4 = 0 \<and> (y mod 100 \<noteq> 0 \<or> y mod 400 = 0))"

definition days_before_year :: "int \<Rightarrow> int" where
  "days_before_year y = (let y1 = y - 1 in y1 * 365 + y1 div 4 - y1 div 100 + y1 div 400)"

definition days_in_month :: "int \<Rightarrow> int \<Rightarrow> int" where
  "days_in_month y m =
     (if m = 2 then (if is_leap y then 29 else 28)
      else if m = 4 \<or> m = 6 \<or> m = 9 \<or> m = 11 then 30 else 31)"

definition days_before_month :: "int \<Rightarrow> int \<Rightarrow> int" where
  "days_before_month y m = sum_list (map (days_in_month y) [1 .. m - 1])"

definition toordinal :: "date \<Rightarrow> int" where
  "toordinal d =
     days_before_year (date_year d) + days_before_month (date_year d) (date_month d) + date_day d"

definition weekday_of_ordinal :: "int \<Rightarrow> int" where
  "weekday_of_ordinal n = (n + 6) mod 7"

definition weekday :: "date \<Rightarrow> int" where
  "weekday d = weekday_of_ordinal (toordinal d)"

section \<open>Classification (app.py)\<close>

text \<open>
  The labels are the source's string literals; the pictographs in front of them are
  written as their UTF-8 bytes.
\<close>

definition unknown_zone :: string where
  "unknown_zone = ''Unknown''"

definition speed_zone :: string where
  "speed_zone = [CHR 0xF0, CHR 0x9F, CHR 0x94, CHR 0xA5] @ '' Speed (< 4:30)''"

definition tempo_zone :: string where
  "tempo_zone = [CHR 0xE2, CHR 0x9A, CHR 0xA1] @ '' Tempo (4:30-5:30)''"

definition easy_zone :: string where
  "easy_zone = [CHR 0xF0, CHR 0x9F, CHR 0x8F, CHR 0x83] @ '' Easy (5:30-6:30)''"

definition recovery_zone :: string where
  "recovery_zone = [CHR 0xF0, CHR 0x9F, CHR 0x9A, CHR 0xB6] @ '' Recovery (> 6:30)''"

definition morning :: string where
  "morning = [CHR 0xF0, CHR 0x9F, CHR 0x8C, CHR 0x85] @ '' Morning''"

definition afternoon :: string where
  "afternoon = [CHR 0xE2, CHR 0x98, CHR 0x80, CHR 0xEF, CHR 0xB8, CHR 0x8F] @ '' Afternoon''"

definition evening :: string where
  "evening = [CHR 0xF0, CHR 0x9F, CHR 0x8C, CHR 0x99] @ '' Evening''"

definition classify_pace_zone :: "real \<Rightarrow> string" where
  "classify_pace_zone pace =
     (if pace = 0 then unknown_zone
      else if pace < 4.5 then speed_zone
      else if pace < 5.5 then tempo_zone
      else if pace < 6.5 then easy_zone
      else recovery_zone)"

definition classify_time_of_day :: "real \<Rightarrow> string" where
  "classify_time_of_day hour =
     (if 5 \<le> hour \<and> hour < 12 then morning
      else if 12 \<le> hour \<and> hour < 18 then afternoon
      else evening)"

section \<open>Refresh scheduling (app.py)\<close>

text \<open>
  The configuration is the JSON object of \<^verbatim>\<open>app_config.json\<close>. Its
  \<^verbatim>\<open>last_update\<close> is the ISO text \<^verbatim>\<open>datetime.now().isoformat()\<close> wrote, read
  back by \<^verbatim>\<open>datetime.fromisoformat\<close>: the model holds the datetime the text denotes,
  and \<open>None\<close> where the key is missing, null or empty (\<^verbatim>\<open>not config.get(...)\<close>).
  The goal is \<open>None\<close> where the object has no \<^verbatim>\<open>monthly_goal\<close>.
  The clock \<^verbatim>\<open>datetime.now()\<close> is the argument \<open>now\<close>.
\<close>

record config =
  monthly_goal :: "int option"
  last_update :: "datetime option"

definition should_update_data :: "config \<Rightarrow> datetime \<Rightarrow> bool" where
  "should_update_data cfg now =
     (case last_update cfg of
        None \<Rightarrow> True
      | Some lu \<Rightarrow>
          (let today_8am = replace_time now 8 0 0 0 in
           if dt_less lu today_8am \<and> dt_le today_8am now then True
           else if date_less (dt_date lu) (dt_date now) then True
           else False))"

text \<open>The three rules of the specification, each as a predicate of its own.\<close>

definition rule_first_run :: "config \<Rightarrow> bool" where
  "rule_first_run cfg = (last_update cfg = None)"

definition rule_boundary_crossed :: "config \<Rightarrow> datetime \<Rightarrow> bool" where
  "rule_boundary_crossed cfg now =
     (case last_update cfg of
        None \<Rightarrow> False
      | Some lu \<Rightarrow> dt_less lu (replace_time now 8 0 0 0) \<and> dt_le (replace_time now 8 0 0 0) now)"

definition rule_day_elapsed :: "config \<Rightarrow> datetime \<Rightarrow> bool" where
  "rule_day_elapsed cfg now =
     (case last_update cfg of
        None \<Rightarrow> False
      | Some lu \<Rightarrow> date_less (dt_date lu) (dt_date now))"

section \<open>Paginated fetch (app.py, update_data.py)\<close>

text \<open>
  \<^verbatim>\<open>requests.get\<close> either raises (no connection, a timeout) or returns a response with
  a status code and a body; \<^verbatim>\<open>res.json()\<close> raises when the body is not JSON. A JSON body
  is an array of activity objects or, for Strava's error replies, an object, of which the
  loop only ever sees the keys (\<^verbatim>\<open>extend\<close> and \<^verbatim>\<open>len\<close> of a dict). The remote
  endpoint is a function from the request to its response; the bearer token is part of
  the endpoint. The loop returns its result together with the requests it has sent.
\<close>

datatype 'a item = Activity 'a | Key string

datatype 'a payload = JArray "'a list" | JObject "string list"

datatype 'a response = TransportFailure | Reply nat "'a payload option"

datatype error =
  ConnectionError | JSONDecodeError | KeyError string | AttributeError | TypeError | ValueError
  | ZeroDivisionError | EmptyDataError

record request =
  req_per_page :: nat
  req_page :: nat

definition per_page :: nat where
  "per_page = 200"

fun payload_len :: "'a payload \<Rightarrow> nat" where
  "payload_len (JArray xs) = length xs"
| "payload_len (JObject ks) = length ks"

fun payload_items :: "'a payload \<Rightarrow> 'a item list" where
  "payload_items (JArray xs) = map Activity xs"
| "payload_items (JObject ks) = map Key ks"

definition param :: "nat \<Rightarrow> request" where
  "param page = \<lparr>req_per_page = per_page, req_page = page\<rparr>"

function fetch_pages ::
  "(request \<Rightarrow> 'a response) \<Rightarrow> nat \<Rightarrow> 'a item list \<Rightarrow> request list
    \<Rightarrow> (error + 'a item list) \<times> request list" where
  "fetch_pages srv page all_activities sent =
     (case srv (param page) of
        TransportFailure \<Rightarrow> (Inl ConnectionError, sent @ [param page])
      | Reply status None \<Rightarrow> (Inl JSONDecodeError, sent @ [param page])
      | Reply status (Some data) \<Rightarrow>
          if payload_len data = 0 then (Inr all_activities, sent @ [param page])
          else if payload_len data < per_page
            then (Inr (all_activities @ payload_items data), sent @ [param page])
          else if page + 1 > 100
            then (Inr (all_activities @ payload_items data), sent @ [param page])
          else fetch_pages srv (page + 1) (all_activities @ payload_items data)
                 (sent @ [param page]))"
  by pat_completeness auto
termination
  by (relation "measure (\<lambda>(srv, page, acc, sent). 101 - page)") auto

declare fetch_pages.simps [simp del]

definition fetch_strava_data ::
  "(request \<Rightarrow> 'a response) \<Rightarrow> (error + 'a item list) \<times> request list" where
  "fetch_strava_data srv = fetch_pages srv 1 [] []"

text \<open>The same loop in \<^verbatim>\<open>update_data.py\<close>, which also prints its progress.\<close>

function upd_fetch_pages ::
  "(request \<Rightarrow> 'a response) \<Rightarrow> nat \<Rightarrow> 'a item list \<Rightarrow> request list
    \<Rightarrow> (error + 'a item list) \<times> request list" where
  "upd_fetch_pages srv page all_activities sent =
     (case srv (param page) of
        TransportFailure \<Rightarrow> (Inl ConnectionError, sent @ [param page])
      | Reply status None \<Rightarrow> (Inl JSONDecodeError, sent @ [param page])
      | Reply status (Some data) \<Rightarrow>
          if payload_len data = 0 then (Inr all_activities, sent @ [param page])
          else if payload_len data < per_page
            then (Inr (all_activities @ payload_items data), sent @ [param page])
          else if page + 1 > 100
            then (Inr (all_activities @ payload_items data), sent @ [param page])
          else upd_fetch_pages srv (page + 1) (all_activities @ payload_items data)
                 (sent @ [param page]))"
  by pat_completeness auto
termination
  by (relation "measure (\<lambda>(srv, page, acc, sent). 101 - page)") auto

declare upd_fetch_pages.simps [simp del]

definition upd_fetch_strava_data ::
  "(request \<Rightarrow> 'a response) \<Rightarrow> (error + 'a item list) \<times> request list" where
  "upd_fetch_strava_data srv = upd_fetch_pages srv 1 [] []"

text \<open>What a requested page can be, for stating why the loop stopped.\<close>

definition full_page :: "'a response \<Rightarrow> bool" where
  "full_page r =
     (case r of Reply status (Some data) \<Rightarrow> per_page \<le> payload_len data | _ \<Rightarrow> False)"

definition failed_page :: "'a response \<Rightarrow> bool" where
  "failed_page r = (case r of Reply status (Some data) \<Rightarrow> False | _ \<Rightarrow> True)"

definition empty_page :: "'a response \<Rightarrow> bool" where
  "empty_page r = (case r of Reply status (Some data) \<Rightarrow> payload_len data = 0 | _ \<Rightarrow> False)"

definition short_page :: "'a response \<Rightarrow> bool" where
  "short_page r =
     (case r of Reply status (Some data) \<Rightarrow> payload_len data < per_page | _ \<Rightarrow> False)"

definition response_items :: "'a response \<Rightarrow> 'a item list" where
  "response_items r = (case r of Reply status (Some data) \<Rightarrow> payload_items data | _ \<Rightarrow> [])"

definition page_outcome :: "'a response \<Rightarrow> 'a item list \<Rightarrow> error + 'a item list" where
  "page_outcome r acc =
     (case r of
        TransportFailure \<Rightarrow> Inl ConnectionError
      | Reply status None \<Rightarrow> Inl JSONDecodeError
      | Reply status (Some data) \<Rightarrow> Inr (acc @ payload_items data))"

section \<open>Datasets (pandas)\<close>

text \<open>
  A cell of a data frame is a number, a text, a timestamp, a date, a missing value
  (\<^verbatim>\<open>NaN\<close>, \<^verbatim>\<open>NaT\<close>, JSON null) or some other object. Numbers are the reals the floats
  denote. A text that denotes a timestamp or a date (the JSON string of
  \<^verbatim>\<open>start_date_local\<close>, a field of the CSV file) is represented by the timestamp or date
  it denotes, so \<^verbatim>\<open>pd.to_datetime\<close> is the identity on it; on any other text it raises.
  Numbers, which pandas would read as nanoseconds since the epoch, are outside the model:
  \<open>to_datetime\<close> answers them with an error.

  A raw record is the JSON object of one activity, a data frame the list of its columns in
  order, each with its label. Pandas works on whole columns; the model applies the same
  operation to every cell and raises where one cell does.
\<close>

datatype cell = NaN | Num real | Str string | Ts datetime | Dt date | Obj

type_synonym raw_record = "(string \<times> cell) list"
type_synonym column = "cell list"
type_synonym dataframe = "(string \<times> column) list"

datatype pyobj = PyList "raw_record item list" | NotAList

text \<open>Propagation of exceptions: the rest runs only if the first part returned.\<close>

definition and_then :: "error + 'a \<Rightarrow> ('a \<Rightarrow> error + 'b) \<Rightarrow> error + 'b" where
  "and_then r f = (case r of Inl e \<Rightarrow> Inl e | Inr x \<Rightarrow> f x)"

fun traverse :: "('a \<Rightarrow> error + 'b) \<Rightarrow> 'a list \<Rightarrow> error + 'b list" where
  "traverse f [] = Inr []"
| "traverse f (x # xs) =
     (case f x of
        Inl e \<Rightarrow> Inl e
      | Inr y \<Rightarrow> (case traverse f xs of Inl e \<Rightarrow> Inl e | Inr ys \<Rightarrow> Inr (y # ys)))"

fun traverse2 :: "('a \<Rightarrow> 'b \<Rightarrow> error + 'c) \<Rightarrow> 'a list \<Rightarrow> 'b list \<Rightarrow> error + 'c list" where
  "traverse2 f (x # xs) (y # ys) =
     (case f x y of
        Inl e \<Rightarrow> Inl e
      | Inr z \<Rightarrow> (case traverse2 f xs ys of Inl e \<Rightarrow> Inl e | Inr zs \<Rightarrow> Inr (z # zs)))"
| "traverse2 f xs ys = Inr []"

text \<open>
  \<^verbatim>\<open>df.columns\<close>, \<^verbatim>\<open>df[c]\<close> (which raises \<^verbatim>\<open>KeyError\<close> for a missing label),
  \<^verbatim>\<open>df[c] = v\<close> (which replaces a column in place or appends a new one) and
  \<^verbatim>\<open>df[labels]\<close> for labels taken from \<^verbatim>\<open>df.columns\<close>.
\<close>

definition columns :: "dataframe \<Rightarrow> string list" where
  "columns df = map fst df"

definition get_col :: "dataframe \<Rightarrow> string \<Rightarrow> error + column" where
  "get_col df c = (case map_of df c of None \<Rightarrow> Inl (KeyError c) | Some v \<Rightarrow> Inr v)"

fun set_col :: "dataframe \<Rightarrow> string \<Rightarrow> column \<Rightarrow> dataframe" where
  "set_col [] c v = [(c, v)]"
| "set_col ((k, w) # df) c v = (if k = c then (c, v) # df else (k, w) # set_col df c v)"

definition select_cols :: "dataframe \<Rightarrow> string list \<Rightarrow> dataframe" where
  "select_cols df cs =
     concat (map (\<lambda>c. case map_of df c of None \<Rightarrow> [] | Some v \<Rightarrow> [(c, v)]) cs)"

text \<open>
  \<^verbatim>\<open>pd.DataFrame(data)\<close> for a list. A list of dicts gives one column per key, in the
  order of first appearance, with \<^verbatim>\<open>NaN\<close> where a record lacks the key; an empty list
  gives a frame with no columns. If the first element is a dict and a later one is a
  string, pandas fails calling \<^verbatim>\<open>keys()\<close> on the string; if the first element is a string
  the list becomes the single column labelled 0.
\<close>

definition record_columns :: "raw_record list \<Rightarrow> string list" where
  "record_columns rs = rev (remdups (rev (concat (map (map fst) rs))))"

definition frame_of_records :: "raw_record list \<Rightarrow> dataframe" where
  "frame_of_records rs =
     map (\<lambda>c. (c, map (\<lambda>r. case map_of r c of None \<Rightarrow> NaN | Some v \<Rightarrow> v) rs))
       (record_columns rs)"

fun is_key :: "'a item \<Rightarrow> bool" where
  "is_key (Key k) = True"
| "is_key (Activity r) = False"

fun item_cell :: "raw_record item \<Rightarrow> cell" where
  "item_cell (Key k) = Str k"
| "item_cell (Activity r) = Obj"

fun activities :: "'a item list \<Rightarrow> 'a list" where
  "activities [] = []"
| "activities (Activity r # xs) = r # activities xs"
| "activities (Key k # xs) = activities xs"

fun DataFrame :: "raw_record item list \<Rightarrow> error + dataframe" where
  "DataFrame [] = Inr []"
| "DataFrame (Activity r # rest) =
     (if list_ex is_key rest then Inl AttributeError
      else Inr (frame_of_records (r # activities rest)))"
| "DataFrame (Key k # rest) = Inr [(''0'', map item_cell (Key k # rest))]"

text \<open>
  \<^verbatim>\<open>df[target] = f(df[source])\<close>, and the row-wise form with two source columns
  (\<^verbatim>\<open>df.apply(lambda x: ..., axis=1)\<close>).
\<close>

definition assign ::
  "dataframe \<Rightarrow> string \<Rightarrow> string \<Rightarrow> (cell \<Rightarrow> error + cell) \<Rightarrow> error + dataframe" where
  "assign df target source f =
     and_then (get_col df source) (\<lambda>c.
     and_then (traverse f c) (\<lambda>v. Inr (set_col df target v)))"

definition assign2 ::
  "dataframe \<Rightarrow> string \<Rightarrow> string \<Rightarrow> string \<Rightarrow> (cell \<Rightarrow> cell \<Rightarrow> error + cell)
    \<Rightarrow> error + dataframe" where
  "assign2 df target source1 source2 f =
     and_then (get_col df source1) (\<lambda>c1.
     and_then (get_col df source2) (\<lambda>c2.
     and_then (traverse2 f c1 c2) (\<lambda>v. Inr (set_col df target v))))"

text \<open>The \<^verbatim>\<open>.dt\<close> accessors; \<^verbatim>\<open>NaT\<close> gives a missing value.\<close>

fun to_datetime :: "cell \<Rightarrow> error + cell" where
  "to_datetime NaN = Inr NaN"
| "to_datetime (Ts t) = Inr (Ts t)"
| "to_datetime (Dt d) = Inr (Ts (DateTime d 0 0 0 0))"
| "to_datetime (Str s) = Inl ValueError"
| "to_datetime (Num x) = Inl ValueError"
| "to_datetime Obj = Inl TypeError"

fun dt_field :: "(datetime \<Rightarrow> cell) \<Rightarrow> cell \<Rightarrow> error + cell" where
  "dt_field f NaN = Inr NaN"
| "dt_field f (Ts t) = Inr (f t)"
| "dt_field f c = Inl AttributeError"

definition day_names :: "string list" where
  "day_names =
     [''Monday'', ''Tuesday'', ''Wednesday'', ''Thursday'', ''Friday'', ''Saturday'', ''Sunday'']"

definition day_name :: "date \<Rightarrow> string" where
  "day_name d = day_names ! nat (weekday d)"

definition isoweek1monday :: "int \<Rightarrow> int" where
  "isoweek1monday y =
     (let firstday = toordinal (Date y 1 1);
          firstweekday = (firstday + 6) mod 7;
          week1monday = firstday - firstweekday
      in if firstweekday > 3 then week1monday + 7 else week1monday)"

definition iso_week :: "date \<Rightarrow> int" where
  "iso_week d =
     (let y = date_year d;
          today = toordinal d;
          week = (today - isoweek1monday y) div 7
      in if week < 0 then (today - isoweek1monday (y - 1)) div 7 + 1
         else if week \<ge> 52 \<and> today \<ge> isoweek1monday (y + 1) then 1
         else week + 1)"

definition dt_date_of :: "cell \<Rightarrow> error + cell" where
  "dt_date_of = dt_field (\<lambda>t. Dt (dt_date t))"

definition dt_hour_of :: "cell \<Rightarrow> error + cell" where
  "dt_hour_of = dt_field (\<lambda>t. Num (of_int (dt_hour t)))"

definition dt_day_name :: "cell \<Rightarrow> error + cell" where
  "dt_day_name = dt_field (\<lambda>t. Str (day_name (dt_date t)))"

definition dt_isocalendar_week :: "cell \<Rightarrow> error + cell" where
  "dt_isocalendar_week = dt_field (\<lambda>t. Num (of_int (iso_week (dt_date t))))"

definition dt_month_of :: "cell \<Rightarrow> error + cell" where
  "dt_month_of = dt_field (\<lambda>t. Num (of_int (date_month (dt_date t))))"

definition dt_year_of :: "cell \<Rightarrow> error + cell" where
  "dt_year_of = dt_field (\<lambda>t. Num (of_int (date_year (dt_date t))))"

definition to_date :: "cell \<Rightarrow> error + cell" where
  "to_date c = and_then (to_datetime c) dt_date_of"

text \<open>
  Division and comparison of cells. A division by zero is an error of its own, so that a
  theorem can say it never happens; a missing value compares false with everything.
\<close>

fun truediv :: "cell \<Rightarrow> cell \<Rightarrow> error + cell" where
  "truediv (Num a) (Num b) = (if b = 0 then Inl ZeroDivisionError else Inr (Num (a / b)))"
| "truediv NaN (Num b) = Inr NaN"
| "truediv (Num a) NaN = Inr NaN"
| "truediv NaN NaN = Inr NaN"
| "truediv a b = Inl TypeError"

fun greater_than :: "cell \<Rightarrow> real \<Rightarrow> error + bool" where
  "greater_than (Num a) b = Inr (a > b)"
| "greater_than NaN b = Inr False"
| "greater_than c b = Inl TypeError"

definition divide_by :: "real \<Rightarrow> cell \<Rightarrow> error + cell" where
  "divide_by k c = truediv c (Num k)"

definition pace_of_row :: "cell \<Rightarrow> cell \<Rightarrow> error + cell" where
  "pace_of_row moving_time_min distance_km =
     and_then (greater_than distance_km 0) (\<lambda>positive.
       if positive then truediv moving_time_min distance_km else Inr (Num 0))"

text \<open>
  \<^verbatim>\<open>column.apply(classify)\<close>: on a missing value every comparison of the classifier is
  false and it returns the label of its else branch, given here as \<open>fallback\<close>.
\<close>

fun apply_label :: "(real \<Rightarrow> string) \<Rightarrow> string \<Rightarrow> cell \<Rightarrow> error + cell" where
  "apply_label f fallback (Num x) = Inr (Str (f x))"
| "apply_label f fallback NaN = Inr (Str fallback)"
| "apply_label f fallback c = Inl TypeError"

section \<open>Record processing (app.py)\<close>

definition cols :: "string list" where
  "cols = [''name'', ''distance'', ''moving_time'', ''start_date_local'',
           ''total_elevation_gain'', ''type'', ''average_heartrate'', ''max_heartrate'',
           ''average_speed'', ''max_speed'']"

definition process_data :: "pyobj \<Rightarrow> error + dataframe" where
  "process_data data =
     (case data of
        NotAList \<Rightarrow> Inr []
      | PyList items \<Rightarrow>
          and_then (DataFrame items) (\<lambda>df.
          let available_cols = filter (\<lambda>c. c \<in> set (columns df)) cols;
              df = select_cols df available_cols
          in
          and_then (assign df ''start_date_local'' ''start_date_local'' to_datetime) (\<lambda>df.
          and_then (assign df ''date'' ''start_date_local'' to_date) (\<lambda>df.
          and_then (assign df ''hour'' ''start_date_local'' dt_hour_of) (\<lambda>df.
          and_then (assign df ''weekday'' ''start_date_local'' dt_day_name) (\<lambda>df.
          and_then (assign df ''week'' ''start_date_local'' dt_isocalendar_week) (\<lambda>df.
          and_then (assign df ''month'' ''start_date_local'' dt_month_of) (\<lambda>df.
          and_then (assign df ''year'' ''start_date_local'' dt_year_of) (\<lambda>df.
          and_then (assign df ''distance_km'' ''distance'' (divide_by 1000)) (\<lambda>df.
          and_then (assign df ''moving_time_min'' ''moving_time'' (divide_by 60)) (\<lambda>df.
          and_then (assign2 df ''pace'' ''moving_time_min'' ''distance_km'' pace_of_row) (\<lambda>df.
          and_then (assign df ''pace_zone'' ''pace''
                      (apply_label classify_pace_zone recovery_zone)) (\<lambda>df.
          assign df ''time_of_day'' ''hour''
            (apply_label classify_time_of_day evening))))))))))))))"

section \<open>Record processing (update_data.py)\<close>

definition upd_classify_pace_zone :: "real \<Rightarrow> string" where
  "upd_classify_pace_zone pace =
     (if pace = 0 then unknown_zone
      else if pace < 4.5 then speed_zone
      else if pace < 5.5 then tempo_zone
      else if pace < 6.5 then easy_zone
      else recovery_zone)"

definition upd_classify_time_of_day :: "real \<Rightarrow> string" where
  "upd_classify_time_of_day hour =
     (if 5 \<le> hour \<and> hour < 12 then morning
      else if 12 \<le> hour \<and> hour < 18 then afternoon
      else evening)"

definition upd_process_data :: "pyobj \<Rightarrow> error + dataframe" where
  "upd_process_data data =
     (case data of
        NotAList \<Rightarrow> Inr []
      | PyList items \<Rightarrow>
          and_then (DataFrame items) (\<lambda>df.
          let available_cols = filter (\<lambda>c. c \<in> set (columns df)) cols;
              df = select_cols df available_cols
          in
          and_then (assign df ''start_date_local'' ''start_date_local'' to_datetime) (\<lambda>df.
          and_then (assign df ''date'' ''start_date_local'' to_date) (\<lambda>df.
          and_then (assign df ''hour'' ''start_date_local'' dt_hour_of) (\<lambda>df.
          and_then (assign df ''weekday'' ''start_date_local'' dt_day_name) (\<lambda>df.
          and_then (assign df ''week'' ''start_date_local'' dt_isocalendar_week) (\<lambda>df.
          and_then (assign df ''month'' ''start_date_local'' dt_month_of) (\<lambda>df.
          and_then (assign df ''year'' ''start_date_local'' dt_year_of) (\<lambda>df.
          and_then (assign df ''distance_km'' ''distance'' (divide_by 1000)) (\<lambda>df.
          and_then (assign df ''moving_time_min'' ''moving_time'' (divide_by 60)) (\<lambda>df.
          and_then (assign2 df ''pace'' ''moving_time_min'' ''distance_km'' pace_of_row) (\<lambda>df.
          and_then (assign df ''pace_zone'' ''pace''
                      (apply_label upd_classify_pace_zone recovery_zone)) (\<lambda>df.
          assign df ''time_of_day'' ''hour''
            (apply_label upd_classify_time_of_day evening))))))))))))))"

section \<open>The cache (app.py)\<close>

text \<open>
  The CSV file holds a table. \<^verbatim>\<open>to_csv\<close> followed by \<^verbatim>\<open>read_csv\<close> is taken to
  give back every cell: a number as that number, a timestamp or a date as text that
  denotes it, a missing value as an empty field. The printing and parsing of floats is not
  modelled. A file without columns makes \<^verbatim>\<open>read_csv\<close> raise. A snapshot written
  under an older schema is the table without the columns that schema lacks.
\<close>

definition to_csv :: "dataframe \<Rightarrow> dataframe" where
  "to_csv df = df"






text \<open>Sample records: a 5 km run of 25 minutes, and an activity with no moving time.\<close>

definition offline :: "request \<Rightarrow> raw_record response" where
  "offline rq = TransportFailure"



section \<open>The update script (update_data.py)\<close>

text \<open>
  \<^verbatim>\<open>main\<close>: the two files it writes are the state. It exits with status 1 when the
  credentials are missing or anything in the \<^verbatim>\<open>try\<close> block raises, before or after
  which nothing has been written, and with status 0 after writing the dataset and the
  configuration with the new \<^verbatim>\<open>last_update\<close>. The token exchange is its result,
  the clock the argument \<open>now\<close>.
\<close>

record files =
  csv_file :: "dataframe option"
  config_file :: "config option"

definition upd_main ::
  "bool \<Rightarrow> error + unit \<Rightarrow> (request \<Rightarrow> raw_record response) \<Rightarrow> datetime \<Rightarrow> files
    \<Rightarrow> files \<times> nat" where
  "upd_main credentials token srv now fs =
     (if \<not> credentials then (fs, 1)
      else case token of
        Inl e \<Rightarrow> (fs, 1)
      | Inr access_token \<Rightarrow>
          (case fst (upd_fetch_strava_data srv) of
             Inl e \<Rightarrow> (fs, 1)
           | Inr raw_data \<Rightarrow>
               (case upd_process_data (PyList raw_data) of
                  Inl e \<Rightarrow> (fs, 1)
                | Inr df \<Rightarrow>
                    (let cfg = (case config_file fs of
                                  None \<Rightarrow> \<lparr>monthly_goal = None, last_update = None\<rparr>
                                | Some c \<Rightarrow> c)
                     in (\<lparr>csv_file = Some (to_csv df),
                          config_file = Some (cfg\<lparr>last_update := Some now\<rparr>)\<rparr>, 0)))))"


section \<open>Activity heatmap (app.py)\<close>

text \<open>
  \<^verbatim>\<open>create_activity_heatmap\<close>. Calendar days are their ordinals here, and
  \<^verbatim>\<open>datetime.now().date()\<close> is the argument \<open>today\<close>. A date cell that is not a date
  never meets a day of the range in the left merge; a missing distance adds nothing to
  the sum of its day. \<^verbatim>\<open>groupby('date')['distance_km'].sum()\<close> is \<open>daily_km\<close>,
  the merge with \<^verbatim>\<open>fillna(0)\<close> is the lookup with default 0, and \<^verbatim>\<open>pivot\<close> has the
  sorted weekdays as its index and the sorted weeks as its columns, a missing value where
  no row has the pair, and raises on a pair that two rows share.
\<close>

record day_row =
  row_date :: int
  row_distance_km :: real
  row_week :: int
  row_weekday :: int

record heatmap =
  hm_z :: "real option list list"
  hm_x :: "int list"
  hm_y :: "string list"

fun km_of :: "cell \<Rightarrow> error + real" where
  "km_of (Num x) = Inr x"
| "km_of NaN = Inr 0"
| "km_of c = Inl TypeError"

fun day_of :: "cell \<Rightarrow> int option" where
  "day_of (Dt d) = Some (toordinal d)"
| "day_of c = None"

text \<open>The summed distance of the activities of day \<open>d\<close>, 0 where there is none.\<close>

definition day_total :: "(int option \<times> real) list \<Rightarrow> int \<Rightarrow> real" where
  "day_total rows d = sum_list (map snd (filter (\<lambda>r. fst r = Some d) rows))"

definition daily_km :: "(int option \<times> real) list \<Rightarrow> (int \<times> real) list" where
  "daily_km rows =
     map (\<lambda>d. (d, day_total rows d)) (sort (remdups (List.map_filter fst rows)))"

definition pivot :: "day_row list \<Rightarrow> error + (int list \<times> int list \<times> real option list list)" where
  "pivot full_df =
     (let keyed = map (\<lambda>r. ((row_weekday r, row_week r), row_distance_km r)) full_df;
          index = sort (remdups (map row_weekday full_df));
          columns = sort (remdups (map row_week full_df))
      in if \<not> distinct (map fst keyed) then Inl ValueError
         else Inr (index, columns, map (\<lambda>r. map (\<lambda>c. map_of keyed (r, c)) columns) index))"

definition create_activity_heatmap :: "dataframe \<Rightarrow> int \<Rightarrow> error + heatmap" where
  "create_activity_heatmap df today =
     and_then (if ''date'' \<notin> set (columns df)
                 then assign df ''date'' ''start_date_local'' to_date
               else Inr df) (\<lambda>df.
     let end_date = today;
         start_date = end_date - 364
     in
     and_then (get_col df ''date'') (\<lambda>dates.
     and_then (get_col df ''distance_km'') (\<lambda>kms.
     and_then (traverse km_of kms) (\<lambda>xs.
     let daily = daily_km (zip (map day_of dates) xs);
         full_df = map (\<lambda>d. \<lparr>row_date = d,
                                row_distance_km = (case map_of daily d of None \<Rightarrow> 0 | Some s \<Rightarrow> s),
                                row_week = (d - start_date) div 7,
                                row_weekday = weekday_of_ordinal d\<rparr>) [start_date .. end_date]
     in
     and_then (pivot full_df) (\<lambda>(index, columns, values).
       Inr \<lparr>hm_z = values, hm_x = columns,
            hm_y = [''Mon'', ''Tue'', ''Wed'', ''Thu'', ''Fri'', ''Sat'', ''Sun'']\<rparr>)))))"


section \<open>Streaks (app.py)\<close>

text \<open>
  The loop of \<^verbatim>\<open>main\<close> over \<^verbatim>\<open>dates = sorted(df['date'].unique())\<close>, with
  \<^verbatim>\<open>(a - b).days\<close> the difference of the ordinals. The loop runs over the indices
  1 to \<^verbatim>\<open>len(dates) - 1\<close> and reads \<^verbatim>\<open>dates[i]\<close> and \<^verbatim>\<open>dates[i-1]\<close>, both in
  range.
\<close>

definition days_between :: "date \<Rightarrow> date \<Rightarrow> int" where
  "days_between a b = toordinal a - toordinal b"

definition streak_step :: "date list \<Rightarrow> nat \<Rightarrow> nat \<times> nat \<Rightarrow> nat \<times> nat" where
  "streak_step dates i st =
     (case st of (max_streak, temp_streak) \<Rightarrow>
        if days_between (dates ! i) (dates ! (i - 1)) = 1
          then (max_streak, temp_streak + 1)
        else (max max_streak temp_streak, 1))"

definition longest_streak :: "date list \<Rightarrow> nat" where
  "longest_streak dates =
     (case fold (streak_step dates) [1 ..< length dates] (0, 1) of
        (max_streak, temp_streak) \<Rightarrow> max max_streak temp_streak)"

text \<open>
  The specification's words: a run of \<open>n\<close> consecutive calendar days from day \<open>d\<close>
  lies in the set, and \<open>n\<close> is the longest streak when some run has \<open>n\<close> days and no run
  has more. Days are ordinals.
\<close>

definition consecutive_days :: "int set \<Rightarrow> int \<Rightarrow> nat \<Rightarrow> bool" where
  "consecutive_days S d n = (\<forall>k < n. d + int k \<in> S)"

definition longest_run :: "int set \<Rightarrow> nat \<Rightarrow> bool" where
  "longest_run S n =
     ((\<exists>d. consecutive_days S d n) \<and> (\<forall>d m. consecutive_days S d m \<longrightarrow> m \<le> n))"

definition example_dates :: "date list" where
  "example_dates = [Date 2024 1 1, Date 2024 1 2, Date 2024 1 3, Date 2024 1 6]"

text \<open>
  The loop again, as a recursion over the ordinals that follow the previous date; the
  proofs go through it.
\<close>

fun scan :: "int \<Rightarrow> int list \<Rightarrow> nat \<Rightarrow> nat \<Rightarrow> nat \<times> nat" where
  "scan prev [] ms t = (ms, t)"
| "scan prev (x # xs) ms t =
     (if x - prev = 1 then scan x xs ms (t + 1) else scan x xs (max ms t) 1)"

text \<open>
  Two sample endpoints. The first serves 202 activities on two pages. The second serves
  two full pages with status 200 and answers the third request with status 429 and
  Strava's JSON error object, whose keys are \<^verbatim>\<open>message\<close> and \<^verbatim>\<open>errors\<close>.
\<close>

definition rate_limited_server :: "request \<Rightarrow> unit response" where
  "rate_limited_server rq =
     (if req_page rq = 1 \<or> req_page rq = 2
        then Reply 200 (Some (JArray (replicate (req_per_page rq) ())))
      else Reply 429 (Some (JObject [''message'', ''errors''])))"

definition well_behaved_server :: "request \<Rightarrow> unit response" where
  "well_behaved_server rq =
     (if req_page rq = 1 then Reply 200 (Some (JArray (replicate (req_per_page rq) ())))
      else if req_page rq = 2 then Reply 200 (Some (JArray [(), ()]))
      else Reply 200 (Some (JArray [])))"

text \<open>The frame that processing the 5 km run gives.\<close>

definition sample_frame :: dataframe where
  "sample_frame =
     [(''name'', [Str ''Morning Run'']), (''distance'', [Num 5000]),
      (''moving_time'', [Num 1500]),
      (''start_date_local'', [Ts (DateTime (Date 2024 1 1) 7 30 0 0)]),
      (''type'', [Str ''Run'']), (''date'', [Dt (Date 2024 1 1)]),
      (''hour'', [Num 7]), (''weekday'', [Str ''Monday'']),
      (''week'', [Num 1]), (''month'', [Num 1]), (''year'', [Num 2024]),
      (''distance_km'', [Num 5]), (''moving_time_min'', [Num 25]),
      (''pace'', [Num 5]), (''pace_zone'', [Str tempo_zone]),
      (''time_of_day'', [Str morning])]"

(* properties *)

lemmas label_defs =
  unknown_zone_def speed_zone_def tempo_zone_def easy_zone_def recovery_zone_def
  morning_def afternoon_def evening_def

section \<open>Classification is a partition\<close>

lemma labels_distinct:
  "distinct [unknown_zone, speed_zone, tempo_zone, easy_zone, recovery_zone]"
  "distinct [morning, afternoon, evening]"
  by (simp_all add: label_defs)

text \<open>
  C9. Every pace at or above 0 falls in exactly one zone: 0 is Unknown, the open interval
  up to 4.5 is Speed, [4.5, 5.5) is Tempo, [5.5, 6.5) is Easy and everything from 6.5 is
  Recovery; every hour from 0 to 23 falls in exactly one time of day: [5, 12) is Morning,
  [12, 18) is Afternoon, the rest Evening. The five zone labels are pairwise different,
  and so are the three times of day, so the intervals neither overlap nor leave a gap.
\<close>

theorem classification_partition:
  fixes pace :: real and h :: int
  assumes "0 \<le> pace" and "0 \<le> h" and "h \<le> 23"
  shows "(classify_pace_zone pace = unknown_zone \<longleftrightarrow> pace = 0)
       \<and> (classify_pace_zone pace = speed_zone \<longleftrightarrow> 0 < pace \<and> pace < 4.5)
       \<and> (classify_pace_zone pace = tempo_zone \<longleftrightarrow> 4.5 \<le> pace \<and> pace < 5.5)
       \<and> (classify_pace_zone pace = easy_zone \<longleftrightarrow> 5.5 \<le> pace \<and> pace < 6.5)
       \<and> (classify_pace_zone pace = recovery_zone \<longleftrightarrow> 6.5 \<le> pace)
       \<and> (classify_time_of_day (of_int h) = morning \<longleftrightarrow> 5 \<le> h \<and> h < 12)
       \<and> (classify_time_of_day (of_int h) = afternoon \<longleftrightarrow> 12 \<le> h \<and> h < 18)
       \<and> (classify_time_of_day (of_int h) = evening \<longleftrightarrow> h < 5 \<or> 18 \<le> h)
       \<and> distinct [unknown_zone, speed_zone, tempo_zone, easy_zone, recovery_zone]
       \<and> distinct [morning, afternoon, evening]"
proof -
  have z: "unknown_zone \<noteq> speed_zone" "unknown_zone \<noteq> tempo_zone" "unknown_zone \<noteq> easy_zone"
    "unknown_zone \<noteq> recovery_zone" "speed_zone \<noteq> tempo_zone" "speed_zone \<noteq> easy_zone"
    "speed_zone \<noteq> recovery_zone" "tempo_zone \<noteq> easy_zone" "tempo_zone \<noteq> recovery_zone"
    "easy_zone \<noteq> recovery_zone"
    using labels_distinct(1) by auto
  have t: "morning \<noteq> afternoon" "morning \<noteq> evening" "afternoon \<noteq> evening"
    using labels_distinct(2) by auto
  have p: "(classify_pace_zone pace = unknown_zone \<longleftrightarrow> pace = 0)
       \<and> (classify_pace_zone pace = speed_zone \<longleftrightarrow> 0 < pace \<and> pace < 4.5)
       \<and> (classify_pace_zone pace = tempo_zone \<longleftrightarrow> 4.5 \<le> pace \<and> pace < 5.5)
       \<and> (classify_pace_zone pace = easy_zone \<longleftrightarrow> 5.5 \<le> pace \<and> pace < 6.5)
       \<and> (classify_pace_zone pace = recovery_zone \<longleftrightarrow> 6.5 \<le> pace)"
    using assms(1) z z[symmetric] unfolding classify_pace_zone_def by auto
  have q: "(classify_time_of_day (of_int h) = morning \<longleftrightarrow> 5 \<le> h \<and> h < 12)
       \<and> (classify_time_of_day (of_int h) = afternoon \<longleftrightarrow> 12 \<le> h \<and> h < 18)
       \<and> (classify_time_of_day (of_int h) = evening \<longleftrightarrow> h < 5 \<or> 18 \<le> h)"
    using t t[symmetric] unfolding classify_time_of_day_def by auto
  from p q labels_distinct show ?thesis by simp
qed

theorem classification_partition_witness:
  "classify_pace_zone 5 = tempo_zone \<and> classify_time_of_day 13 = afternoon
   \<and> classify_pace_zone 0 = unknown_zone \<and> classify_time_of_day 23 = evening"
  using classification_partition [of 5 13] classification_partition [of 0 23]
  by simp

section \<open>Refresh scheduling\<close>

lemma date_less_irrefl: "\<not> date_less d d"
  by (simp add: date_less_def)

text \<open>
  C5. \<open>should_update_data\<close> answers true exactly when one of the three rules holds: no
  last update is recorded, or the last update is before today's 08:00 and 08:00 is not
  after now, or the last update's date is before today's date. On any day, a last update
  at 07:00 seen at 09:00 is due, a last update at 09:00 seen at 10:00 is not, and a last
  update at 23:00 of an earlier day seen at 00:30 is due.
\<close>

theorem should_update_rules:
  "should_update_data cfg now =
      (rule_first_run cfg \<or> rule_boundary_crossed cfg now \<or> rule_day_elapsed cfg now)
   \<and> should_update_data \<lparr>monthly_goal = g, last_update = Some (DateTime d 7 0 0 0)\<rparr>
        (DateTime d 9 0 0 0)
   \<and> \<not> should_update_data \<lparr>monthly_goal = g, last_update = Some (DateTime d 9 0 0 0)\<rparr>
        (DateTime d 10 0 0 0)
   \<and> (date_less y d \<longrightarrow>
        should_update_data \<lparr>monthly_goal = g, last_update = Some (DateTime y 23 0 0 0)\<rparr>
          (DateTime d 0 30 0 0))"
proof -
  have rules: "should_update_data cfg now =
      (rule_first_run cfg \<or> rule_boundary_crossed cfg now \<or> rule_day_elapsed cfg now)"
    by (cases "last_update cfg")
      (simp_all add: should_update_data_def rule_first_run_def rule_boundary_crossed_def
        rule_day_elapsed_def Let_def)
  have seven: "should_update_data \<lparr>monthly_goal = g, last_update = Some (DateTime d 7 0 0 0)\<rparr>
        (DateTime d 9 0 0 0)"
    by (simp add: should_update_data_def replace_time_def dt_less_def dt_le_def time_less_def)
  have nine: "\<not> should_update_data \<lparr>monthly_goal = g, last_update = Some (DateTime d 9 0 0 0)\<rparr>
        (DateTime d 10 0 0 0)"
    by (simp add: should_update_data_def replace_time_def dt_less_def dt_le_def time_less_def
        date_less_irrefl)
  have late: "date_less y d \<longrightarrow>
        should_update_data \<lparr>monthly_goal = g, last_update = Some (DateTime y 23 0 0 0)\<rparr>
          (DateTime d 0 30 0 0)"
    by (simp add: should_update_data_def)
  from rules seven nine late show ?thesis by blast
qed

theorem should_update_rules_witness:
  "date_less (Date 2024 2 29) (Date 2024 3 1)
   \<and> toordinal (Date 2024 2 29) + 1 = toordinal (Date 2024 3 1)
   \<and> should_update_data
        \<lparr>monthly_goal = Some 100, last_update = Some (DateTime (Date 2024 2 29) 23 0 0 0)\<rparr>
        (DateTime (Date 2024 3 1) 0 30 0 0)
   \<and> \<not> should_update_data
        \<lparr>monthly_goal = Some 100, last_update = Some (DateTime (Date 2024 3 1) 9 0 0 0)\<rparr>
        (DateTime (Date 2024 3 1) 10 0 0 0)"
proof -
  have less: "date_less (Date 2024 2 29) (Date 2024 3 1)"
    by (simp add: date_less_def)
  have next_day: "toordinal (Date 2024 2 29) + 1 = toordinal (Date 2024 3 1)"
    by (simp add: toordinal_def days_before_year_def days_before_month_def days_in_month_def
        is_leap_def upto.simps)
  from less next_day should_update_rules [of _ _ "Some 100" "Date 2024 3 1" "Date 2024 2 29"]
  show ?thesis by blast
qed

section \<open>Data frames\<close>

lemma and_then_simps [simp]:
  "and_then (Inl e) f = Inl e"
  "and_then (Inr x) f = f x"
  by (simp_all add: and_then_def)


lemma map_of_set_col [simp]: "map_of (set_col df c v) = (map_of df)(c \<mapsto> v)"
  by (induction df c v rule: set_col.induct) auto

lemma get_col_Inr_iff [simp]: "get_col df c = Inr v \<longleftrightarrow> map_of df c = Some v"
  by (simp add: get_col_def split: option.splits)



section \<open>Record processing\<close>

lemma empty_select: "select_cols [] (filter (\<lambda>c. c \<in> set (columns [])) cols) = []"
  by (simp add: select_cols_def columns_def)

lemma assign_empty:
  "assign [] ''start_date_local'' ''start_date_local'' to_datetime
     = Inl (KeyError ''start_date_local'')"
  by (simp add: assign_def get_col_def)

text \<open>
  C4, at the empty list. A value that is not a list gives the empty frame, but the empty
  list gives a frame without columns, on which \<^verbatim>\<open>df['start_date_local']\<close> raises
  \<^verbatim>\<open>KeyError\<close>: \<open>process_data\<close> does not return.
\<close>

theorem process_data_empty_list_raises:
  "process_data (PyList []) = Inl (KeyError ''start_date_local'')
   \<and> process_data NotAList = Inr []"
  unfolding process_data_def
  by (simp only: pyobj.case DataFrame.simps and_then_simps Let_def empty_select assign_empty)

text \<open>
  C10. The processing functions of \<^verbatim>\<open>update_data.py\<close> are the functions of
  \<^verbatim>\<open>app.py\<close>: the two classifiers agree on every number and the two
  \<open>process_data\<close> on every input, in the error they raise or in the frame they return,
  with its columns, their order and every cell.
\<close>

theorem processing_implementations_agree:
  "upd_process_data = process_data
   \<and> upd_classify_pace_zone = classify_pace_zone
   \<and> upd_classify_time_of_day = classify_time_of_day"
proof -
  have z: "upd_classify_pace_zone = classify_pace_zone"
    by (rule ext) (simp only: upd_classify_pace_zone_def classify_pace_zone_def)
  have t: "upd_classify_time_of_day = classify_time_of_day"
    by (rule ext) (simp only: upd_classify_time_of_day_def classify_time_of_day_def)
  have p: "upd_process_data = process_data"
    by (rule ext) (simp only: upd_process_data_def process_data_def z t)
  from p z t show ?thesis by simp
qed







lemma in_columns_iff: "c \<in> set (columns df) \<longleftrightarrow> map_of df c \<noteq> None"
  by (simp add: columns_def map_of_eq_None_iff)










section \<open>Pace\<close>




lemma divide_by_cases:
  assumes "divide_by k c = Inr r" and "k \<noteq> 0"
  shows "(c = NaN \<and> r = NaN) \<or> (\<exists>x. c = Num x \<and> r = Num (x / k))"
  using assms by (cases c) (auto simp: divide_by_def)































section \<open>The cache round trip\<close>








section \<open>The pagination loop\<close>

lemma not_full_page: "\<not> full_page r \<longleftrightarrow> failed_page r \<or> empty_page r \<or> short_page r"
  by (auto simp: full_page_def failed_page_def empty_page_def short_page_def per_page_def
      split: response.splits option.splits)

lemma fetch_pages_stop:
  assumes "\<not> (full_page (srv (param page)) \<and> page < 100)"
  shows "fetch_pages srv page acc sent = (page_outcome (srv (param page)) acc, sent @ [param page])"
proof (cases "srv (param page)")
  case TransportFailure
  then show ?thesis by (subst fetch_pages.simps) (simp add: page_outcome_def)
next
  case (Reply status body)
  show ?thesis
  proof (cases body)
    case None
    with Reply show ?thesis by (subst fetch_pages.simps) (simp add: page_outcome_def)
  next
    case (Some data)
    with Reply assms have "payload_len data < per_page \<or> \<not> page < 100"
      by (auto simp: full_page_def)
    with Reply Some show ?thesis
      by (subst fetch_pages.simps) (cases data; auto simp: page_outcome_def)
  qed
qed

lemma fetch_pages_step:
  assumes "full_page (srv (param page))" and "page < 100"
  shows "fetch_pages srv page acc sent =
         fetch_pages srv (page + 1) (acc @ response_items (srv (param page))) (sent @ [param page])"
proof -
  from assms(1) obtain status data where r: "srv (param page) = Reply status (Some data)"
    and len: "per_page \<le> payload_len data"
    by (auto simp: full_page_def split: response.splits option.splits)
  have "0 < per_page" by (simp add: per_page_def)
  with r len assms(2) show ?thesis
    by (subst fetch_pages.simps) (simp add: response_items_def)
qed

lemma fetch_pages_run:
  "1 \<le> page \<Longrightarrow> page \<le> 100 \<Longrightarrow>
   \<exists>n. page \<le> n \<and> n \<le> 100
     \<and> fetch_pages srv page acc sent =
         (page_outcome (srv (param n))
            (acc @ concat (map (\<lambda>p. response_items (srv (param p))) [page ..< n])),
          sent @ map param [page ..< Suc n])
     \<and> (\<forall>p. page \<le> p \<and> p < n \<longrightarrow> full_page (srv (param p)))
     \<and> (\<not> full_page (srv (param n)) \<or> n = 100)"
proof (induction srv page acc sent rule: fetch_pages.induct)
  case (1 srv page acc sent)
  show ?case
  proof (cases "full_page (srv (param page)) \<and> page < 100")
    case False
    then have "fetch_pages srv page acc sent =
        (page_outcome (srv (param page)) acc, sent @ [param page])"
      by (rule fetch_pages_stop)
    with False "1.prems" show ?thesis
      by (intro exI[of _ page]) auto
  next
    case True
    then obtain status data where r: "srv (param page) = Reply status (Some data)"
      and len: "per_page \<le> payload_len data"
      by (auto simp: full_page_def split: response.splits option.splits)
    have pp: "0 < per_page" by (simp add: per_page_def)
    let ?acc = "acc @ payload_items data"
    have items: "response_items (srv (param page)) = payload_items data"
      by (simp add: r response_items_def)
    from True have step: "fetch_pages srv page acc sent =
        fetch_pages srv (page + 1) ?acc (sent @ [param page])"
      using fetch_pages_step[of srv page acc sent] items by simp
    from r len True pp have
      "\<exists>n. page + 1 \<le> n \<and> n \<le> 100
         \<and> fetch_pages srv (page + 1) ?acc (sent @ [param page]) =
            (page_outcome (srv (param n))
               (?acc @ concat (map (\<lambda>p. response_items (srv (param p))) [page + 1 ..< n])),
             (sent @ [param page]) @ map param [page + 1 ..< Suc n])
         \<and> (\<forall>p. page + 1 \<le> p \<and> p < n \<longrightarrow> full_page (srv (param p)))
         \<and> (\<not> full_page (srv (param n)) \<or> n = 100)"
      by (intro "1.IH"[OF r]) auto
    then obtain n where n: "page + 1 \<le> n" "n \<le> 100"
      "fetch_pages srv (page + 1) ?acc (sent @ [param page]) =
            (page_outcome (srv (param n))
               (?acc @ concat (map (\<lambda>p. response_items (srv (param p))) [page + 1 ..< n])),
             (sent @ [param page]) @ map param [page + 1 ..< Suc n])"
      "\<forall>p. page + 1 \<le> p \<and> p < n \<longrightarrow> full_page (srv (param p))"
      "\<not> full_page (srv (param n)) \<or> n = 100"
      by blast
    have upt1: "[page ..< Suc n] = page # [page + 1 ..< Suc n]"
      using n(1) by (simp add: upt_conv_Cons)
    have upt2: "[page ..< n] = page # [page + 1 ..< n]"
      using n(1) by (simp add: upt_conv_Cons)
    have full: "\<forall>p. page \<le> p \<and> p < n \<longrightarrow> full_page (srv (param p))"
    proof (intro allI impI)
      fix p assume "page \<le> p \<and> p < n"
      then consider "p = page" | "page + 1 \<le> p \<and> p < n" by linarith
      then show "full_page (srv (param p))" using True n(4) by cases auto
    qed
    have run: "fetch_pages srv page acc sent =
         (page_outcome (srv (param n))
            (acc @ concat (map (\<lambda>p. response_items (srv (param p))) [page ..< n])),
          sent @ map param [page ..< Suc n])"
      unfolding step n(3) upt1 upt2 by (simp add: items)
    from n(1) have "page \<le> n" by simp
    with n(2) run full n(5) show ?thesis by blast
  qed
qed

lemma length_concat_le:
  "(\<And>x. x \<in> set xs \<Longrightarrow> length (f x) \<le> k) \<Longrightarrow> length (concat (map f xs)) \<le> k * length xs"
proof (induction xs)
  case Nil
  then show ?case by simp
next
  case (Cons a xs)
  have "length (f a) \<le> k" using Cons.prems by simp
  moreover have "length (concat (map f xs)) \<le> k * length xs"
    using Cons by simp
  ultimately show ?case by simp
qed

lemma upd_fetch_pages_eq:
  "upd_fetch_pages srv page acc sent = fetch_pages srv page acc sent"
proof (induction srv page acc sent rule: fetch_pages.induct)
  case (1 srv page acc sent)
  show ?case
  proof (cases "srv (param page)")
    case TransportFailure
    then show ?thesis
      by (subst upd_fetch_pages.simps, subst fetch_pages.simps) simp
  next
    case (Reply status body)
    show ?thesis
    proof (cases body)
      case None
      with Reply show ?thesis
        by (subst upd_fetch_pages.simps, subst fetch_pages.simps) simp
    next
      case (Some data)
      show ?thesis
      proof (cases "payload_len data \<noteq> 0 \<and> \<not> payload_len data < per_page \<and> \<not> page + 1 > 100")
        case True
        then have "upd_fetch_pages srv (page + 1) (acc @ payload_items data) (sent @ [param page])
            = fetch_pages srv (page + 1) (acc @ payload_items data) (sent @ [param page])"
          using "1.IH"[OF Reply Some] by simp
        with Reply Some True show ?thesis
          by (subst upd_fetch_pages.simps, subst fetch_pages.simps) simp
      next
        case False
        with Reply Some show ?thesis
          by (subst upd_fetch_pages.simps, subst fetch_pages.simps) auto
      qed
    qed
  qed
qed

lemma upd_fetch_strava_data_eq: "upd_fetch_strava_data srv = fetch_strava_data srv"
  by (simp add: upd_fetch_strava_data_def fetch_strava_data_def upd_fetch_pages_eq)


text \<open>
  C8. For every endpoint the loop returns, and the loop of \<^verbatim>\<open>update_data.py\<close> returns the
  same. It sends the requests for pages 1 to n in
  order, each asking for 200 records, with n at most 100. Every page before the last was a
  full one, and the last one failed, was empty, was shorter than 200, or was page 100, after
  which the counter exceeds the cap. So at most 100 requests are sent, and where no page
  holds more than the 200 records asked for, at most 20000 records are accumulated.
\<close>

theorem fetch_terminates_within_cap:
  "upd_fetch_strava_data srv = fetch_strava_data srv
   \<and> (\<exists>n. 1 \<le> n \<and> n \<le> 100
     \<and> snd (fetch_strava_data srv) = map param [1 ..< Suc n]
     \<and> fst (fetch_strava_data srv) =
         page_outcome (srv (param n))
           (concat (map (\<lambda>p. response_items (srv (param p))) [1 ..< n]))
     \<and> (\<forall>p. 1 \<le> p \<and> p < n \<longrightarrow> full_page (srv (param p)))
     \<and> (failed_page (srv (param n)) \<or> empty_page (srv (param n))
          \<or> short_page (srv (param n)) \<or> n = 100)
     \<and> length (snd (fetch_strava_data srv)) \<le> 100
     \<and> ((\<forall>p. length (response_items (srv (param p))) \<le> per_page) \<longrightarrow>
          (\<forall>xs. fst (fetch_strava_data srv) = Inr xs \<longrightarrow> length xs \<le> 20000)))"
proof -
  have "\<exists>n. 1 \<le> n \<and> n \<le> 100
     \<and> fetch_pages srv 1 [] [] =
         (page_outcome (srv (param n))
            ([] @ concat (map (\<lambda>p. response_items (srv (param p))) [1 ..< n])),
          [] @ map param [1 ..< Suc n])
     \<and> (\<forall>p. 1 \<le> p \<and> p < n \<longrightarrow> full_page (srv (param p)))
     \<and> (\<not> full_page (srv (param n)) \<or> n = 100)"
    by (rule fetch_pages_run) simp_all
  then obtain n where n: "1 \<le> n" "n \<le> 100"
    "fetch_pages srv 1 [] [] =
         (page_outcome (srv (param n))
            ([] @ concat (map (\<lambda>p. response_items (srv (param p))) [1 ..< n])),
          [] @ map param [1 ..< Suc n])"
    "\<forall>p. 1 \<le> p \<and> p < n \<longrightarrow> full_page (srv (param p))"
    "\<not> full_page (srv (param n)) \<or> n = 100"
    by blast
  let ?pre = "concat (map (\<lambda>p. response_items (srv (param p))) [1 ..< n])"
  have s: "snd (fetch_strava_data srv) = map param [1 ..< Suc n]"
    and f: "fst (fetch_strava_data srv) = page_outcome (srv (param n)) ?pre"
    using n(3) by (simp_all add: fetch_strava_data_def)
  have len: "length (snd (fetch_strava_data srv)) \<le> 100"
    using s n(2) by simp
  have stop: "failed_page (srv (param n)) \<or> empty_page (srv (param n))
          \<or> short_page (srv (param n)) \<or> n = 100"
    using n(5) not_full_page by blast
  have bound: "(\<forall>p. length (response_items (srv (param p))) \<le> per_page) \<longrightarrow>
          (\<forall>xs. fst (fetch_strava_data srv) = Inr xs \<longrightarrow> length xs \<le> 20000)"
  proof (intro impI allI)
    fix xs
    assume sz: "\<forall>p. length (response_items (srv (param p))) \<le> per_page"
      and r: "fst (fetch_strava_data srv) = Inr xs"
    from r f have "xs = ?pre @ response_items (srv (param n))"
      by (auto simp: page_outcome_def response_items_def split: response.splits option.splits)
    then have xs: "xs = concat (map (\<lambda>p. response_items (srv (param p))) [1 ..< Suc n])"
      using n(1) by simp
    have l: "length [1 ..< Suc n] = n" by simp
    have "length xs \<le> per_page * length [1 ..< Suc n]"
      unfolding xs using sz by (intro length_concat_le) simp
    then have "length xs \<le> per_page * n" unfolding l .
    also have "\<dots> \<le> 200 * 100" using n(2) by (simp add: per_page_def)
    finally show "length xs \<le> 20000" by simp
  qed
  from n(1,2) s f n(4) stop len bound
  have "\<exists>n. 1 \<le> n \<and> n \<le> 100
     \<and> snd (fetch_strava_data srv) = map param [1 ..< Suc n]
     \<and> fst (fetch_strava_data srv) =
         page_outcome (srv (param n))
           (concat (map (\<lambda>p. response_items (srv (param p))) [1 ..< n]))
     \<and> (\<forall>p. 1 \<le> p \<and> p < n \<longrightarrow> full_page (srv (param p)))
     \<and> (failed_page (srv (param n)) \<or> empty_page (srv (param n))
          \<or> short_page (srv (param n)) \<or> n = 100)
     \<and> length (snd (fetch_strava_data srv)) \<le> 100
     \<and> ((\<forall>p. length (response_items (srv (param p))) \<le> per_page) \<longrightarrow>
          (\<forall>xs. fst (fetch_strava_data srv) = Inr xs \<longrightarrow> length xs \<le> 20000))"
    by blast
  with upd_fetch_strava_data_eq show ?thesis by (rule conjI)
qed

theorem fetch_terminates_within_cap_witness:
  "fetch_strava_data well_behaved_server =
     (Inr (replicate 200 (Activity ()) @ [Activity (), Activity ()]), [param 1, param 2])
   \<and> length (snd (fetch_strava_data well_behaved_server)) \<le> 100
   \<and> (\<exists>n. 1 \<le> n \<and> n \<le> 100
        \<and> snd (fetch_strava_data well_behaved_server) = map param [1 ..< Suc n])"
proof -
  have run: "fetch_strava_data well_behaved_server =
     (Inr (replicate 200 (Activity ()) @ [Activity (), Activity ()]), [param 1, param 2])"
    unfolding fetch_strava_data_def
    apply (subst fetch_pages.simps)
    apply (simp add: well_behaved_server_def param_def per_page_def)
    apply (subst fetch_pages.simps)
    apply (simp add: well_behaved_server_def param_def per_page_def)
    done
  from run fetch_terminates_within_cap [of well_behaved_server] show ?thesis by blast
qed

text \<open>
  C2, at the rate-limited endpoint. The third request is answered with HTTP status 429.
  The loop does not look at the status: it takes the keys of the error object for the
  records of a short last page and returns the 400 activities of the first two pages
  followed by the two keys, where the specification has the fetch abort with no result.
\<close>

theorem fetch_returns_partial_result_on_http_error:
  "fetch_strava_data rate_limited_server =
     (Inr (replicate 200 (Activity ()) @ replicate 200 (Activity ())
            @ [Key ''message'', Key ''errors'']),
      [param 1, param 2, param 3])"
  unfolding fetch_strava_data_def
  apply (subst fetch_pages.simps)
  apply (simp add: rate_limited_server_def param_def per_page_def)
  apply (subst fetch_pages.simps)
  apply (simp add: rate_limited_server_def param_def per_page_def)
  apply (subst fetch_pages.simps)
  apply (simp add: rate_limited_server_def param_def per_page_def)
  done

section \<open>The longest streak\<close>

lemma run_last:
  assumes "consecutive_days (insert y A) d m" and "\<forall>a \<in> A. a < y"
  shows "consecutive_days A d m \<or> (0 < m \<and> d + int m - 1 = y)"
proof (cases "consecutive_days A d m")
  case True
  then show ?thesis by simp
next
  case False
  then obtain k where k: "k < m" "d + int k \<notin> A"
    by (auto simp: consecutive_days_def)
  with assms(1) have yk: "d + int k = y"
    by (auto simp: consecutive_days_def)
  have "k = m - 1"
  proof (rule ccontr)
    assume "k \<noteq> m - 1"
    with k(1) have "Suc k < m" by simp
    with assms(1) have "d + int (Suc k) \<in> insert y A"
      by (simp only: consecutive_days_def)
    with yk assms(2) show False by auto
  qed
  with k(1) yk show ?thesis by auto
qed

lemma scan_longest_run:
  assumes "sorted_wrt (<) (prev # ys)"
    and "prev \<in> A" and "\<forall>a \<in> A. a \<le> prev"
    and "1 \<le> t" and "\<forall>k < t. prev - int k \<in> A" and "prev - int t \<notin> A"
    and "longest_run A (max ms t)"
  shows "longest_run (A \<union> set ys) (max (fst (scan prev ys ms t)) (snd (scan prev ys ms t)))"
  using assms
proof (induction ys arbitrary: prev A ms t)
  case Nil
  then show ?case by simp
next
  case (Cons y ys)
  let ?A = "insert y A"
  have lt: "prev < y" and srt: "sorted_wrt (<) (y # ys)"
    using Cons.prems(1) by auto
  have below: "\<forall>a \<in> A. a < y"
    using Cons.prems(3) lt by force
  have in': "y \<in> ?A" and le': "\<forall>a \<in> ?A. a \<le> y"
    using below by auto
  obtain d0 where d0: "consecutive_days A d0 (max ms t)"
    and ub: "\<And>d m. consecutive_days A d m \<Longrightarrow> m \<le> max ms t"
    using Cons.prems(7) by (auto simp: longest_run_def)
  have mono: "\<And>d m. consecutive_days A d m \<Longrightarrow> consecutive_days ?A d m"
    by (auto simp: consecutive_days_def)
  show ?case
  proof (cases "y - prev = 1")
    case True
    then have y: "y = prev + 1" by simp
    have i5: "\<forall>k < t + 1. y - int k \<in> ?A"
    proof (intro allI impI)
      fix k assume "k < t + 1"
      show "y - int k \<in> ?A"
      proof (cases k)
        case 0
        then show ?thesis by simp
      next
        case (Suc j)
        with \<open>k < t + 1\<close> have "j < t" by simp
        with Cons.prems(5) have "prev - int j \<in> A" by simp
        moreover have "y - int k = prev - int j" using y Suc by simp
        ultimately have "y - int k \<in> A" by (simp only:)
        then show ?thesis by simp
      qed
    qed
    have i6: "y - int (t + 1) \<notin> ?A"
      using Cons.prems(6) y Cons.prems(4) by auto
    have i7: "longest_run ?A (max ms (t + 1))"
      unfolding longest_run_def
    proof (intro conjI allI impI)
      show "\<exists>d. consecutive_days ?A d (max ms (t + 1))"
      proof (cases "t + 1 \<le> ms")
        case True
        then have "max ms (t + 1) = max ms t" by simp
        with mono[OF d0] show ?thesis by auto
      next
        case False
        then have m: "max ms (t + 1) = t + 1" by simp
        have "consecutive_days ?A (y - int t) (t + 1)"
          unfolding consecutive_days_def
        proof (intro allI impI)
          fix k assume k: "k < t + 1"
          then have "t - k < t + 1" by simp
          with i5 have "y - int (t - k) \<in> ?A" by blast
          moreover have "y - int (t - k) = y - int t + int k" using k by simp
          ultimately show "y - int t + int k \<in> ?A" by (simp only:)
        qed
        with m show ?thesis by auto
      qed
    next
      fix d m assume r: "consecutive_days ?A d m"
      from run_last[OF r below] show "m \<le> max ms (t + 1)"
      proof
        assume "consecutive_days A d m"
        from ub[OF this] show ?thesis by simp
      next
        assume e: "0 < m \<and> d + int m - 1 = y"
        show ?thesis
        proof (rule ccontr)
          assume "\<not> m \<le> max ms (t + 1)"
          then have big: "t + 1 < m" by simp
          then have "m - t - 2 < m" by simp
          with r have "d + int (m - t - 2) \<in> ?A"
            by (simp only: consecutive_days_def)
          moreover have "d + int (m - t - 2) = y - int (t + 1)"
            using e big by simp
          ultimately have "y - int (t + 1) \<in> ?A" by (simp only:)
          with i6 show False by (rule notE)
        qed
      qed
    qed
    have "longest_run (?A \<union> set ys)
        (max (fst (scan y ys ms (t + 1))) (snd (scan y ys ms (t + 1))))"
      by (rule Cons.IH[OF srt in' le' _ i5 i6 i7]) simp
    with True show ?thesis by simp
  next
    case False
    with lt have gap: "prev + 1 < y" by simp
    have i5: "\<forall>k < 1. y - int k \<in> ?A" by simp
    have i6: "y - int 1 \<notin> ?A"
      using gap Cons.prems(3) by force
    have ge1: "1 \<le> max ms t" using Cons.prems(4) by simp
    have i7: "longest_run ?A (max (max ms t) 1)"
      unfolding longest_run_def
    proof (intro conjI allI impI)
      from ge1 have "max (max ms t) 1 = max ms t" by simp
      with mono[OF d0] show "\<exists>d. consecutive_days ?A d (max (max ms t) 1)" by auto
    next
      fix d m assume r: "consecutive_days ?A d m"
      from run_last[OF r below] show "m \<le> max (max ms t) 1"
      proof
        assume "consecutive_days A d m"
        from ub[OF this] show ?thesis by simp
      next
        assume e: "0 < m \<and> d + int m - 1 = y"
        show ?thesis
        proof (rule ccontr)
          assume "\<not> m \<le> max (max ms t) 1"
          then have big: "1 < m" by simp
          then have "m - 2 < m" by simp
          with r have "d + int (m - 2) \<in> ?A"
            by (simp only: consecutive_days_def)
          moreover have "d + int (m - 2) = y - int 1"
            using e big by simp
          ultimately have "y - int 1 \<in> ?A" by (simp only:)
          with i6 show False by (rule notE)
        qed
      qed
    qed
    have "longest_run (?A \<union> set ys)
        (max (fst (scan y ys (max ms t) 1)) (snd (scan y ys (max ms t) 1)))"
      by (rule Cons.IH[OF srt in' le' _ i5 i6 i7]) simp
    with False show ?thesis by simp
  qed
qed


lemma fold_streak_scan:
  "1 \<le> k \<Longrightarrow> k \<le> length ds \<Longrightarrow>
   fold (streak_step ds) [k ..< length ds] (ms, t)
     = scan (toordinal (ds ! (k - 1))) (map toordinal (drop k ds)) ms t"
proof (induction "length ds - k" arbitrary: k ms t)
  case 0
  then have "k = length ds" by simp
  then show ?case by simp
next
  case (Suc n)
  then have lt: "k < length ds" by simp
  have upt: "[k ..< length ds] = k # [Suc k ..< length ds]"
    using lt by (simp add: upt_conv_Cons)
  have drp: "drop k ds = ds ! k # drop (Suc k) ds"
    using lt by (simp add: Cons_nth_drop_Suc)
  have n: "n = length ds - Suc k" using Suc.hyps(2) by simp
  have ih: "\<And>ms t. fold (streak_step ds) [Suc k ..< length ds] (ms, t)
      = scan (toordinal (ds ! k)) (map toordinal (drop (Suc k) ds)) ms t"
    using Suc.hyps(1)[OF n] lt by simp
  show ?case
    unfolding upt drp
    by (simp add: streak_step_def days_between_def ih)
qed

lemma longest_run_singleton: "longest_run {x} 1"
  unfolding longest_run_def
proof (intro conjI allI impI)
  show "\<exists>d. consecutive_days {x} d 1"
    by (auto simp: consecutive_days_def)
next
  fix d m assume r: "consecutive_days {x} d m"
  show "m \<le> 1"
  proof (rule ccontr)
    assume "\<not> m \<le> 1"
    then have "0 < m" "1 < m" by simp_all
    with r have "d + int 0 \<in> {x}" "d + int 1 \<in> {x}"
      by (simp_all only: consecutive_days_def)
    then show False by simp
  qed
qed

text \<open>
  For a non-empty list of dates in ascending order without repetition, the loop's result
  is the length of the longest run of consecutive calendar days among them.
\<close>

theorem longest_streak_is_longest_run:
  assumes "dates \<noteq> []" and "sorted (map toordinal dates)" and "distinct (map toordinal dates)"
  shows "longest_run (toordinal ` set dates) (longest_streak dates)"
proof -
  from assms(1) obtain d0 rest where ds: "dates = d0 # rest"
    by (cases dates) auto
  let ?x0 = "toordinal d0"
  let ?ys = "map toordinal rest"
  have srt: "sorted_wrt (<) (?x0 # ?ys)"
    using assms(2,3) ds strict_sorted_iff[of "map toordinal dates"] by simp
  have f: "fold (streak_step dates) [1 ..< length dates] (0, 1) = scan ?x0 ?ys 0 1"
    using fold_streak_scan[of 1 dates 0 1] ds by simp
  have "longest_run ({?x0} \<union> set ?ys) (max (fst (scan ?x0 ?ys 0 1)) (snd (scan ?x0 ?ys 0 1)))"
    by (rule scan_longest_run[OF srt]) (simp_all add: longest_run_singleton[simplified])
  moreover have "{?x0} \<union> set ?ys = toordinal ` set dates"
    using ds by auto
  moreover have "longest_streak dates = max (fst (scan ?x0 ?ys 0 1)) (snd (scan ?x0 ?ys 0 1))"
    unfolding longest_streak_def f by (simp add: case_prod_beta)
  ultimately show ?thesis by simp
qed

lemma example_sorted:
  "example_dates \<noteq> [] \<and> sorted (map toordinal example_dates)
   \<and> distinct (map toordinal example_dates)"
  by code_simp

theorem longest_streak_is_longest_run_witness:
  "longest_streak example_dates = 3
   \<and> longest_run (toordinal ` set example_dates) 3"
proof -
  have e: "longest_streak example_dates = 3" by code_simp
  have h: "example_dates \<noteq> []" "sorted (map toordinal example_dates)"
    "distinct (map toordinal example_dates)"
    by code_simp+
  from longest_streak_is_longest_run[OF h] e show ?thesis by simp
qed




section \<open>The heatmap grid\<close>

lemma day_total_absent: "Some d \<notin> fst ` set rows \<Longrightarrow> day_total rows d = 0"
proof -
  assume "Some d \<notin> fst ` set rows"
  then have "\<forall>r \<in> set rows. fst r \<noteq> Some d" by force
  then have "filter (\<lambda>r. fst r = Some d) rows = []"
    by (simp add: filter_empty_conv)
  then show ?thesis by (simp add: day_total_def)
qed

lemma filled_daily_km:
  "(case map_of (daily_km rows) d of None \<Rightarrow> 0 | Some s \<Rightarrow> s) = day_total rows d"
proof (cases "Some d \<in> fst ` set rows")
  case True
  then have "d \<in> set (sort (remdups (List.map_filter fst rows)))"
    by (force simp: List.map_filter_def image_iff)
  then show ?thesis
    by (simp add: daily_km_def map_of_map_restrict)
next
  case False
  then have "d \<notin> set (sort (remdups (List.map_filter fst rows)))"
    by (force simp: List.map_filter_def image_iff)
  then have "map_of (daily_km rows) d = None"
    by (simp add: daily_km_def map_of_map_restrict)
  with day_total_absent[OF False] show ?thesis by simp
qed

lemma sort_remdups_interval:
  fixes xs :: "int list"
  assumes "set xs = {a..b}"
  shows "sort (remdups xs) = [a..b]"
  by (rule sorted_distinct_set_unique) (simp_all add: assms)


lemma weekdays_of_year:
  fixes s :: int
  shows "weekday_of_ordinal ` {s .. s + 364} = {0..6}"
proof (intro equalityI subsetI)
  fix r assume "r \<in> weekday_of_ordinal ` {s .. s + 364}"
  then show "r \<in> {0..6}"
    by (auto simp: weekday_of_ordinal_def)
next
  fix r :: int assume r: "r \<in> {0..6}"
  let ?d = "s + (r - (s + 6)) mod 7"
  have a: "0 \<le> (r - (s + 6)) mod 7" "(r - (s + 6)) mod 7 < 7" by simp_all
  then have "?d \<in> {s .. s + 364}" by simp
  moreover have "(?d + 6) mod 7 = r"
  proof -
    have "(?d + 6) mod 7 = ((s + 6) + (r - (s + 6)) mod 7) mod 7"
      by (simp add: algebra_simps)
    also have "\<dots> = ((s + 6) + (r - (s + 6))) mod 7"
      by (simp add: mod_add_right_eq)
    also have "\<dots> = r mod 7" by simp
    also have "\<dots> = r" using r by simp
    finally show ?thesis .
  qed
  then have "weekday_of_ordinal ?d = r"
    by (simp only: weekday_of_ordinal_def)
  ultimately show "r \<in> weekday_of_ordinal ` {s .. s + 364}" by (intro image_eqI[where x="?d"]) simp_all
qed

lemma weeks_of_year:
  fixes s :: int
  shows "(\<lambda>d. (d - s) div 7) ` {s .. s + 364} = {0..52}"
proof (intro equalityI subsetI)
  fix c assume "c \<in> (\<lambda>d. (d - s) div 7) ` {s .. s + 364}"
  then obtain d where d: "s \<le> d" "d \<le> s + 364" and c: "c = (d - s) div 7" by auto
  from d have "0 \<le> d - s" "d - s \<le> 364" by simp_all
  then have "0 \<le> (d - s) div 7" "(d - s) div 7 \<le> 52" by linarith+
  with c show "c \<in> {0..52}" by simp
next
  fix c :: int assume c: "c \<in> {0..52}"
  let ?d = "s + 7 * c"
  have "?d \<in> {s .. s + 364}" using c by simp
  moreover have "c = (?d - s) div 7" by simp
  ultimately show "c \<in> (\<lambda>d. (d - s) div 7) ` {s .. s + 364}" by (rule rev_image_eqI)
qed

lemma cell_of_day_inj:
  fixes s :: int
  shows "inj_on (\<lambda>d. (weekday_of_ordinal d, (d - s) div 7)) A"
proof (rule inj_onI)
  fix d d' :: int
  assume "(weekday_of_ordinal d, (d - s) div 7) = (weekday_of_ordinal d', (d' - s) div 7)"
  then have m: "(d + 6) mod 7 = (d' + 6) mod 7" and q: "(d - s) div 7 = (d' - s) div 7"
    by (simp_all add: weekday_of_ordinal_def)
  from m have "(d - s) mod 7 = (d' - s) mod 7"
    by (metis add_diff_cancel_right' mod_diff_left_eq)
  with q have "d - s = d' - s"
    by (metis mult_div_mod_eq)
  then show "d = d'" by simp
qed


lemma pivot_year:
  fixes s :: int and f :: "int \<Rightarrow> real"
  defines "full \<equiv> map (\<lambda>d. \<lparr>row_date = d, row_distance_km = f d,
                                row_week = (d - s) div 7,
                                row_weekday = weekday_of_ordinal d\<rparr>) [s .. s + 364]"
  defines "keyed \<equiv> map (\<lambda>d. ((weekday_of_ordinal d, (d - s) div 7), f d)) [s .. s + 364]"
  shows "pivot full =
           Inr ([0..6], [0..52], map (\<lambda>r. map (\<lambda>c. map_of keyed (r, c)) [0..52]) [0..6])"
    and "\<And>d. s \<le> d \<Longrightarrow> d \<le> s + 364 \<Longrightarrow>
           map_of keyed (weekday_of_ordinal d, (d - s) div 7) = Some (f d)"
    and "\<And>r c. map_of keyed (r, c) \<noteq> None \<Longrightarrow>
           \<exists>d. s \<le> d \<and> d \<le> s + 364 \<and> r = weekday_of_ordinal d \<and> c = (d - s) div 7"
proof -
  have k: "map (\<lambda>r. ((row_weekday r, row_week r), row_distance_km r)) full = keyed"
    by (simp add: full_def keyed_def comp_def)
  have keys: "map fst keyed = map (\<lambda>d. (weekday_of_ordinal d, (d - s) div 7)) [s .. s + 364]"
    by (simp add: keyed_def comp_def)
  have dist: "distinct (map fst keyed)"
    unfolding keys by (simp add: distinct_map cell_of_day_inj)
  have wd: "map row_weekday full = map weekday_of_ordinal [s .. s + 364]"
    by (simp add: full_def comp_def)
  have wk: "map row_week full = map (\<lambda>d. (d - s) div 7) [s .. s + 364]"
    by (simp add: full_def comp_def)
  have index: "sort (remdups (map row_weekday full)) = [0..6]"
    unfolding wd by (rule sort_remdups_interval) (simp add: weekdays_of_year)
  have columns: "sort (remdups (map row_week full)) = [0..52]"
    unfolding wk by (rule sort_remdups_interval) (simp add: weeks_of_year)
  show "pivot full =
           Inr ([0..6], [0..52], map (\<lambda>r. map (\<lambda>c. map_of keyed (r, c)) [0..52]) [0..6])"
    unfolding pivot_def Let_def k index columns using dist by simp
  show "map_of keyed (weekday_of_ordinal d, (d - s) div 7) = Some (f d)"
    if "s \<le> d" "d \<le> s + 364" for d
  proof -
    from that have "((weekday_of_ordinal d, (d - s) div 7), f d) \<in> set keyed"
      by (auto simp: keyed_def image_iff intro!: bexI[where x=d])
    with dist show ?thesis by simp
  qed
  show "\<exists>d. s \<le> d \<and> d \<le> s + 364 \<and> r = weekday_of_ordinal d \<and> c = (d - s) div 7"
    if "map_of keyed (r, c) \<noteq> None" for r c
  proof -
    from that have "(r, c) \<in> fst ` set keyed"
      by (simp add: map_of_eq_None_iff)
    then show ?thesis
      by (auto simp: keyed_def)
  qed
qed


lemma grid_cell:
  fixes m :: "(int \<times> int) \<rightharpoonup> real"
  assumes "0 \<le> r" "r \<le> 6" "0 \<le> c" "c \<le> 52"
  shows "map (\<lambda>r. map (\<lambda>c. m (r, c)) [0..52]) [0..6::int] ! nat r ! nat c = m (r, c)"
proof -
  have r: "[0..6::int] ! nat r = r"
    using assms nth_upto[of 0 "nat r" 6] by simp
  have c: "[0..52::int] ! nat c = c"
    using assms nth_upto[of 0 "nat c" 52] by simp
  from assms have l: "nat r < length [0..6::int]" "nat c < length [0..52::int]"
    by simp_all
  show ?thesis
    by (simp only: nth_map[OF l(1)] nth_map[OF l(2)] r c)
qed

text \<open>
  C7. Take any dataset with a date column and a numeric distance_km column, and any current
  date. The heatmap is built without error. Its grid has 7 rows, labelled Mon to Sun, of 53
  cells each, for the weeks 0 to 52. The range has 365 days, from 364 days before today to
  today. Each day of it lies in the row of its weekday (0 for Monday) and in the column
  \<open>(d - start_date) div 7\<close>; the cell there holds the summed distance of the day, which is
  0 for a day without activity; and every cell that holds a value is the cell of a day of
  the range.
\<close>

theorem heatmap_covers_trailing_year:
  assumes "map_of df ''date'' = Some dates" and "map_of df ''distance_km'' = Some kms"
    and "traverse km_of kms = Inr xs"
  shows "\<exists>hm. create_activity_heatmap df today = Inr hm
     \<and> length (hm_z hm) = 7 \<and> (\<forall>row \<in> set (hm_z hm). length row = 53)
     \<and> hm_y hm = [''Mon'', ''Tue'', ''Wed'', ''Thu'', ''Fri'', ''Sat'', ''Sun'']
     \<and> hm_x hm = [0..52]
     \<and> length [today - 364 .. today] = 365
     \<and> (\<forall>d. today - 364 \<le> d \<and> d \<le> today \<longrightarrow>
           weekday_of_ordinal d \<in> {0..6} \<and> (d - (today - 364)) div 7 \<in> {0..52}
           \<and> hm_z hm ! nat (weekday_of_ordinal d) ! nat ((d - (today - 364)) div 7)
               = Some (day_total (zip (map day_of dates) xs) d)
           \<and> (Some d \<notin> set (map day_of dates) \<longrightarrow>
                hm_z hm ! nat (weekday_of_ordinal d) ! nat ((d - (today - 364)) div 7) = Some 0))
     \<and> (\<forall>r < 7. \<forall>c < 53. hm_z hm ! r ! c \<noteq> None \<longrightarrow>
           (\<exists>d. today - 364 \<le> d \<and> d \<le> today \<and> int r = weekday_of_ordinal d
                \<and> int c = (d - (today - 364)) div 7))"
proof -
  let ?s = "today - 364"
  let ?rows = "zip (map day_of dates) xs"
  let ?f = "day_total ?rows"
  define keyed where
    "keyed = map (\<lambda>d. ((weekday_of_ordinal d, (d - ?s) div 7), ?f d)) [?s .. ?s + 364]"
  define z where "z = map (\<lambda>r. map (\<lambda>c. map_of keyed (r, c)) [0..52]) [0..6::int]"
  let ?hm = "\<lparr>hm_z = z, hm_x = [0..52],
               hm_y = [''Mon'', ''Tue'', ''Wed'', ''Thu'', ''Fri'', ''Sat'', ''Sun'']\<rparr>"
  have e: "?s + 364 = today" by simp
  have c: "''date'' \<in> set (columns df)"
    using assms(1) by (simp add: in_columns_iff)
  have g1: "get_col df ''date'' = Inr dates" using assms(1) by simp
  have g2: "get_col df ''distance_km'' = Inr kms" using assms(2) by simp
  have full: "map (\<lambda>d. \<lparr>row_date = d,
        row_distance_km = (case map_of (daily_km ?rows) d of None \<Rightarrow> 0 | Some s \<Rightarrow> s),
        row_week = (d - ?s) div 7, row_weekday = weekday_of_ordinal d\<rparr>) [?s .. today]
     = map (\<lambda>d. \<lparr>row_date = d, row_distance_km = ?f d,
        row_week = (d - ?s) div 7, row_weekday = weekday_of_ordinal d\<rparr>) [?s .. ?s + 364]"
    by (simp only: filled_daily_km e)
  have p: "pivot (map (\<lambda>d. \<lparr>row_date = d, row_distance_km = ?f d,
        row_week = (d - ?s) div 7, row_weekday = weekday_of_ordinal d\<rparr>) [?s .. ?s + 364])
      = Inr ([0..6], [0..52], z)"
    unfolding z_def keyed_def by (rule pivot_year(1))
  have run: "create_activity_heatmap df today = Inr ?hm"
    unfolding create_activity_heatmap_def
    by (simp only: c not_True_eq_False if_False and_then_simps Let_def g1 g2 assms(3) full p
        prod.case)
  have cell: "z ! nat r ! nat c = map_of keyed (r, c)"
    if "0 \<le> r" "r \<le> 6" "0 \<le> c" "c \<le> 52" for r c
    unfolding z_def using that by (rule grid_cell)
  have lz: "length z = 7"
    unfolding z_def by simp
  have lrow: "\<forall>row \<in> set z. length row = 53"
    unfolding z_def by simp
  have days: "length [today - 364 .. today] = 365" by simp
  have filled: "\<forall>d. today - 364 \<le> d \<and> d \<le> today \<longrightarrow>
           weekday_of_ordinal d \<in> {0..6} \<and> (d - (today - 364)) div 7 \<in> {0..52}
           \<and> z ! nat (weekday_of_ordinal d) ! nat ((d - (today - 364)) div 7)
               = Some (day_total (zip (map day_of dates) xs) d)
           \<and> (Some d \<notin> set (map day_of dates) \<longrightarrow>
                z ! nat (weekday_of_ordinal d) ! nat ((d - (today - 364)) div 7) = Some 0)"
  proof (intro allI impI)
    fix d assume d: "today - 364 \<le> d \<and> d \<le> today"
    then have d': "?s \<le> d" "d \<le> ?s + 364" by simp_all
    have "weekday_of_ordinal d \<in> weekday_of_ordinal ` {?s .. ?s + 364}"
      using d' by (intro imageI) simp
    then have wd: "weekday_of_ordinal d \<in> {0..6}"
      by (simp only: weekdays_of_year)
    have "(d - ?s) div 7 \<in> (\<lambda>d. (d - ?s) div 7) ` {?s .. ?s + 364}"
      using d' by (intro imageI) simp
    then have wk: "(d - ?s) div 7 \<in> {0..52}"
      by (simp only: weeks_of_year)
    have k: "map_of keyed (weekday_of_ordinal d, (d - ?s) div 7) = Some (?f d)"
      unfolding keyed_def using d' by (rule pivot_year(2))
    from wd wk have v: "z ! nat (weekday_of_ordinal d) ! nat ((d - ?s) div 7) = Some (?f d)"
      using cell[of "weekday_of_ordinal d" "(d - ?s) div 7"] k by simp
    have zero: "z ! nat (weekday_of_ordinal d) ! nat ((d - ?s) div 7) = Some 0"
      if "Some d \<notin> set (map day_of dates)"
    proof -
      from that have "Some d \<notin> fst ` set ?rows"
        by (auto dest: set_zip_leftD)
      from day_total_absent[OF this] v show ?thesis by simp
    qed
    from wd wk v zero
    show "weekday_of_ordinal d \<in> {0..6} \<and> (d - (today - 364)) div 7 \<in> {0..52}
           \<and> z ! nat (weekday_of_ordinal d) ! nat ((d - (today - 364)) div 7)
               = Some (day_total (zip (map day_of dates) xs) d)
           \<and> (Some d \<notin> set (map day_of dates) \<longrightarrow>
                z ! nat (weekday_of_ordinal d) ! nat ((d - (today - 364)) div 7) = Some 0)"
      by (intro conjI impI)
  qed
  have only: "\<forall>r < 7. \<forall>c < 53. z ! r ! c \<noteq> None \<longrightarrow>
           (\<exists>d. today - 364 \<le> d \<and> d \<le> today \<and> int r = weekday_of_ordinal d
                \<and> int c = (d - (today - 364)) div 7)"
  proof (intro allI impI)
    fix r c :: nat assume r: "r < 7" and c: "c < 53" and nz: "z ! r ! c \<noteq> None"
    from r c have "z ! nat (int r) ! nat (int c) = map_of keyed (int r, int c)"
      by (intro cell) simp_all
    with nz have "map_of keyed (int r, int c) \<noteq> None" by simp
    then have "\<exists>d. ?s \<le> d \<and> d \<le> ?s + 364 \<and> int r = weekday_of_ordinal d
        \<and> int c = (d - ?s) div 7"
      unfolding keyed_def by (rule pivot_year(3))
    then show "\<exists>d. today - 364 \<le> d \<and> d \<le> today \<and> int r = weekday_of_ordinal d
                \<and> int c = (d - (today - 364)) div 7"
      by (simp only: e)
  qed
  have sel: "hm_z ?hm = z" "hm_x ?hm = [0..52]"
    "hm_y ?hm = [''Mon'', ''Tue'', ''Wed'', ''Thu'', ''Fri'', ''Sat'', ''Sun'']"
    by simp_all
  show ?thesis
    apply (rule exI[of _ ?hm])
    unfolding sel
    using run lz lrow days filled only
    apply (intro conjI)
           apply assumption+
    apply (rule refl)
     apply (rule refl)
    apply assumption+
    done
qed



text \<open>The distance_km column that \<open>process_data\<close> computes has only such cells.\<close>

lemma divided_cells_are_numeric:
  "traverse (divide_by k) c = Inr v \<Longrightarrow> \<exists>xs. traverse km_of v = Inr xs"
proof (induction c arbitrary: v)
  case Nil
  then show ?case by simp
next
  case (Cons x c)
  from Cons.prems obtain y v' where y: "divide_by k x = Inr y"
    and v': "traverse (divide_by k) c = Inr v'" and v: "v = y # v'"
    by (auto split: sum.splits)
  from y have "y = NaN \<or> (\<exists>q. y = Num q)"
    by (cases x) (auto simp: divide_by_def split: if_splits)
  then obtain q where "km_of y = Inr q" by auto
  moreover from Cons.IH[OF v'] obtain xs where "traverse km_of v' = Inr xs" by blast
  ultimately show ?case using v by simp
qed

lemma sample_day:
  "weekday_of_ordinal (toordinal (Date 2024 1 1)) = 0"
  "(toordinal (Date 2024 1 1) - (toordinal (Date 2024 1 3) - 364)) div 7 = 51"
  "toordinal (Date 2024 1 3) - 364 \<le> toordinal (Date 2024 1 1)"
  "toordinal (Date 2024 1 1) \<le> toordinal (Date 2024 1 3)"
  "day_total (zip (map day_of [Dt (Date 2024 1 1)]) [5]) (toordinal (Date 2024 1 1)) = 5"
  by code_simp+

theorem heatmap_covers_trailing_year_witness:
  "map_of sample_frame ''date'' = Some [Dt (Date 2024 1 1)]
   \<and> map_of sample_frame ''distance_km'' = Some [Num 5]
   \<and> traverse km_of [Num 5] = Inr [5]
   \<and> (\<exists>hm. create_activity_heatmap sample_frame (toordinal (Date 2024 1 3)) = Inr hm
         \<and> length (hm_z hm) = 7 \<and> hm_x hm = [0..52]
         \<and> hm_z hm ! 0 ! 51 = Some 5)"
proof -
  have a: "map_of sample_frame ''date'' = Some [Dt (Date 2024 1 1)]"
    by (simp add: sample_frame_def)
  have b: "map_of sample_frame ''distance_km'' = Some [Num 5]"
    by (simp add: sample_frame_def)
  have c: "traverse km_of [Num 5] = Inr [5]"
    by simp
  let ?T = "toordinal (Date 2024 1 3)"
  let ?d = "toordinal (Date 2024 1 1)"
  from heatmap_covers_trailing_year[OF a b c, of ?T]
  obtain hm where run: "create_activity_heatmap sample_frame ?T = Inr hm"
    and rows: "length (hm_z hm) = 7" and cols: "hm_x hm = [0..52]"
    and filled: "\<forall>d. ?T - 364 \<le> d \<and> d \<le> ?T \<longrightarrow>
           weekday_of_ordinal d \<in> {0..6} \<and> (d - (?T - 364)) div 7 \<in> {0..52}
           \<and> hm_z hm ! nat (weekday_of_ordinal d) ! nat ((d - (?T - 364)) div 7)
               = Some (day_total (zip (map day_of [Dt (Date 2024 1 1)]) [5]) d)
           \<and> (Some d \<notin> set (map day_of [Dt (Date 2024 1 1)]) \<longrightarrow>
                hm_z hm ! nat (weekday_of_ordinal d) ! nat ((d - (?T - 364)) div 7) = Some 0)"
    by (elim exE conjE) (rule that)
  note s = sample_day
  from filled s(3,4) have "hm_z hm ! nat (weekday_of_ordinal ?d) ! nat ((?d - (?T - 364)) div 7)
               = Some (day_total (zip (map day_of [Dt (Date 2024 1 1)]) [5]) ?d)"
    by blast
  then have cell: "hm_z hm ! 0 ! 51 = Some 5"
    unfolding s(1,2,5) by simp
  from run rows cols cell
  have "\<exists>hm. create_activity_heatmap sample_frame ?T = Inr hm
         \<and> length (hm_z hm) = 7 \<and> hm_x hm = [0..52]
         \<and> hm_z hm ! 0 ! 51 = Some 5"
    by (intro exI conjI)
  with a b c show ?thesis by (intro conjI)
qed


section \<open>A failed synchronisation\<close>

lemma upd_process_data_eq: "upd_process_data data = process_data data"
proof -
  have z: "upd_classify_pace_zone = classify_pace_zone"
    by (rule ext) (simp only: upd_classify_pace_zone_def classify_pace_zone_def)
  have t: "upd_classify_time_of_day = classify_time_of_day"
    by (rule ext) (simp only: upd_classify_time_of_day_def classify_time_of_day_def)
  show ?thesis
    by (simp only: upd_process_data_def process_data_def z t)
qed

lemma fetch_result_items:
  assumes "fst (fetch_strava_data srv) = Inr xs"
  obtains n where "1 \<le> n"
    and "snd (fetch_strava_data srv) = map param [1 ..< Suc n]"
    and "xs = concat (map (\<lambda>p. response_items (srv (param p))) [1 ..< Suc n])"
    and "\<And>p. 1 \<le> p \<Longrightarrow> p \<le> n \<Longrightarrow> \<not> failed_page (srv (param p))"
proof -
  have "\<exists>n. 1 \<le> n \<and> n \<le> 100
     \<and> fetch_pages srv 1 [] [] =
         (page_outcome (srv (param n))
            ([] @ concat (map (\<lambda>p. response_items (srv (param p))) [1 ..< n])),
          [] @ map param [1 ..< Suc n])
     \<and> (\<forall>p. 1 \<le> p \<and> p < n \<longrightarrow> full_page (srv (param p)))
     \<and> (\<not> full_page (srv (param n)) \<or> n = 100)"
    by (rule fetch_pages_run) simp_all
  then obtain n where n: "1 \<le> n"
    and run: "fetch_pages srv 1 [] [] =
         (page_outcome (srv (param n))
            ([] @ concat (map (\<lambda>p. response_items (srv (param p))) [1 ..< n])),
          [] @ map param [1 ..< Suc n])"
    and full: "\<forall>p. 1 \<le> p \<and> p < n \<longrightarrow> full_page (srv (param p))"
    by blast
  let ?pre = "concat (map (\<lambda>p. response_items (srv (param p))) [1 ..< n])"
  from run have s: "snd (fetch_strava_data srv) = map param [1 ..< Suc n]"
    and f: "fst (fetch_strava_data srv) = page_outcome (srv (param n)) ?pre"
    by (simp_all add: fetch_strava_data_def)
  from f assms have last: "\<not> failed_page (srv (param n))"
    and xs: "xs = ?pre @ response_items (srv (param n))"
    by (auto simp: page_outcome_def failed_page_def response_items_def
        split: response.splits option.splits)
  from xs n have items: "xs = concat (map (\<lambda>p. response_items (srv (param p))) [1 ..< Suc n])"
    by simp
  have ok: "\<not> failed_page (srv (param p))" if "1 \<le> p" "p \<le> n" for p
  proof (cases "p = n")
    case True
    with last show ?thesis by simp
  next
    case False
    with that full have "full_page (srv (param p))" by simp
    then show ?thesis
      by (auto simp: full_page_def failed_page_def split: response.splits option.splits)
  qed
  from n s items ok show ?thesis by (rule that)
qed

lemma keys_make_process_data_raise:
  assumes "list_ex is_key items"
  shows "\<exists>e. process_data (PyList items) = Inl e"
proof (cases items rule: DataFrame.cases)
  case 1
  with assms show ?thesis by simp
next
  case (2 r rest)
  with assms have "DataFrame items = Inl AttributeError" by simp
  then show ?thesis by (simp add: process_data_def)
next
  case (3 k rest)
  let ?df = "[(''0'', map item_cell (Key k # rest))]"
  have d: "DataFrame items = Inr ?df" using 3 by simp
  have sel: "select_cols ?df (filter (\<lambda>c. c \<in> set (columns ?df)) cols) = []"
    by (simp add: select_cols_def columns_def cols_def)
  show ?thesis
    unfolding process_data_def
    by (simp only: pyobj.case d and_then_simps Let_def sel assign_empty) blast
qed

text \<open>
  Where a page that the update script requested could not be fetched, had a body that is
  not JSON, or was a JSON object with at least one key (Strava's error replies), the script
  exits with status 1 and leaves the dataset file and the configuration as they were: the
  fetch raises, or else the keys it has taken for records make \<open>process_data\<close> raise.
\<close>

theorem failed_sync_keeps_files:
  assumes "rq \<in> set (snd (upd_fetch_strava_data srv))"
    and "failed_page (srv rq)
         \<or> (\<exists>status ks. srv rq = Reply status (Some (JObject ks)) \<and> ks \<noteq> [])"
  shows "upd_main credentials token srv now fs = (fs, 1)"
proof (cases "fst (fetch_strava_data srv)")
  case (Inl e)
  then show ?thesis
    by (simp add: upd_main_def upd_fetch_strava_data_eq split: sum.splits)
next
  case (Inr raw_data)
  from fetch_result_items[OF Inr] obtain n where n: "1 \<le> n"
    and sent: "snd (fetch_strava_data srv) = map param [1 ..< Suc n]"
    and items: "raw_data = concat (map (\<lambda>p. response_items (srv (param p))) [1 ..< Suc n])"
    and ok: "\<And>p. 1 \<le> p \<Longrightarrow> p \<le> n \<Longrightarrow> \<not> failed_page (srv (param p))"
    by blast
  from assms(1) sent obtain p where p: "rq = param p" "1 \<le> p" "p \<le> n"
    by (auto simp: upd_fetch_strava_data_eq)
  with ok assms(2) obtain status ks where
    obj: "srv (param p) = Reply status (Some (JObject ks))" and ks: "ks \<noteq> []"
    by blast
  from ks obtain k where "k \<in> set ks" by (cases ks) auto
  with obj have "Key k \<in> set (response_items (srv (param p)))"
    by (simp add: response_items_def)
  moreover from p(2,3) have "p \<in> set [1 ..< Suc n]" by auto
  ultimately have "Key k \<in> set raw_data"
    unfolding items set_concat set_map by blast
  moreover have "is_key (Key k :: raw_record item)" by simp
  ultimately have "list_ex is_key raw_data"
    unfolding list_ex_iff by (rule bexI[rotated])
  from keys_make_process_data_raise[OF this] obtain e
    where "process_data (PyList raw_data) = Inl e" by blast
  then have "upd_process_data (PyList raw_data) = Inl e"
    by (simp only: upd_process_data_eq)
  with Inr show ?thesis
    by (simp add: upd_main_def upd_fetch_strava_data_eq split: sum.splits)
qed


theorem failed_sync_keeps_files_witness:
  "param 1 \<in> set (snd (upd_fetch_strava_data offline))
   \<and> failed_page (offline (param 1))
   \<and> upd_main True (Inr ()) offline (DateTime (Date 2024 1 3) 8 0 0 0)
        \<lparr>csv_file = Some sample_frame, config_file = None\<rparr>
       = (\<lparr>csv_file = Some sample_frame, config_file = None\<rparr>, 1)"
proof -
  have "fetch_strava_data offline = (Inl ConnectionError, [param 1])"
    unfolding fetch_strava_data_def
    by (subst fetch_pages.simps) (simp add: offline_def)
  then have a: "param 1 \<in> set (snd (upd_fetch_strava_data offline))"
    by (simp add: upd_fetch_strava_data_eq)
  have b: "failed_page (offline (param 1))"
    by (simp add: failed_page_def offline_def)
  from b have "failed_page (offline (param 1))
      \<or> (\<exists>status ks. offline (param 1) = Reply status (Some (JObject ks)) \<and> ks \<noteq> [])"
    by (rule disjI1)
  from failed_sync_keeps_files[OF a this] a b show ?thesis by (intro conjI)
qed

end
